theory Spec2Isabelle
  imports Main "HOL-Library.Word" "HOL-Library.Multiset"
begin

section \<open>JavaScript values\<close>

text \<open>
  A JavaScript string is a sequence of 16-bit code units; \<open>length\<close> counts code units, as
  the \<open>length\<close> property does. \<open>js\<close> embeds an ASCII literal of the source.
\<close>

type_synonym code_unit = "16 word"
type_synonym jsstring = "code_unit list"
type_synonym byte = "8 word"

definition js :: "string \<Rightarrow> jsstring" where
  "js s = map of_char s"

text \<open>\<open>String.prototype.startsWith\<close> and \<open>slice(1)\<close>.\<close>

definition startsWith :: "jsstring \<Rightarrow> jsstring \<Rightarrow> bool" where
  "startsWith s p = (take (length p) s = p)"

definition slice1 :: "jsstring \<Rightarrow> jsstring" where
  "slice1 s = drop 1 s"

text \<open>The decimal rendering of a non-negative integer, as a template literal prints it.\<close>

fun toString_nat :: "nat \<Rightarrow> jsstring" where
  "toString_nat n =
     (if n < 10 then [of_nat (48 + n)]
      else toString_nat (n div 10) @ [of_nat (48 + n mod 10)])"

declare toString_nat.simps [simp del]

text \<open>
  A parsed JSON value. A number is a double; it is kept as the two things the code can
  observe of it: whether it is zero, and the text \<open>ToString\<close> gives for it.
\<close>

datatype json =
    JNull
  | JBool bool
  | JNum (is_zero: bool) (number_text: jsstring)
  | JStr jsstring
  | JArr "json list"
  | JObj "(jsstring \<times> json) list"

text \<open>Truthiness, as \<open>||\<close> and \<open>if\<close> test it.\<close>

fun truthy :: "json \<Rightarrow> bool" where
  "truthy JNull = False"
| "truthy (JBool b) = b"
| "truthy (JNum z t) = (\<not> z)"
| "truthy (JStr s) = (s \<noteq> [])"
| "truthy (JArr _) = True"
| "truthy (JObj _) = True"

fun join_comma :: "jsstring list \<Rightarrow> jsstring" where
  "join_comma [] = []"
| "join_comma [s] = s"
| "join_comma (s # t # ts) = s @ js '','' @ join_comma (t # ts)"

text \<open>
  A thrown or rejected value. \<open>Error m\<close> is an \<open>Error\<close> object with message \<open>m\<close> (also
  the engine's own \<open>TypeError\<close> and \<open>SyntaxError\<close>); \<open>ProgressEvent\<close> is the event object a
  \<open>FileReader\<close> hands to \<open>onerror\<close>, which has no \<open>message\<close> property.
\<close>

datatype js_error = Error (message: jsstring) | ProgressEvent

text \<open>\<open>err.message\<close> inside a template literal: a missing property prints as \<open>undefined\<close>.\<close>

fun message_text :: "js_error \<Rightarrow> jsstring" where
  "message_text (Error m) = m"
| "message_text ProgressEvent = js ''undefined''"

text \<open>
  \<open>ToString\<close>, which \<open>new Error(x)\<close> applies to its argument. An array joins its elements
  with commas, printing \<open>null\<close> elements as empty. An object goes through its \<open>toString\<close>:
  the inherited one gives \<open>[object Object]\<close>, but a key \<open>toString\<close> of its own hides it
  with a value that cannot be called, and the conversion throws a \<open>TypeError\<close> (the
  message is V8's).
\<close>

fun lookup_last :: "jsstring \<Rightarrow> (jsstring \<times> json) list \<Rightarrow> json option" where
  "lookup_last k [] = None"
| "lookup_last k ((k', v) # kvs) =
     (case lookup_last k kvs of
        Some w \<Rightarrow> Some w
      | None \<Rightarrow> if k' = k then Some v else None)"

fun json_toString :: "json \<Rightarrow> js_error + jsstring"
  and elements_toString :: "json list \<Rightarrow> js_error + jsstring list" where
  "json_toString JNull = Inr (js ''null'')"
| "json_toString (JBool b) = Inr (if b then js ''true'' else js ''false'')"
| "json_toString (JNum z t) = Inr t"
| "json_toString (JStr s) = Inr s"
| "json_toString (JArr xs) =
     (case elements_toString xs of
        Inl e \<Rightarrow> Inl e
      | Inr ss \<Rightarrow> Inr (join_comma ss))"
| "json_toString (JObj kvs) =
     (if lookup_last (js ''toString'') kvs \<noteq> None
      then Inl (Error (js ''Cannot convert object to primitive value''))
      else Inr (js ''[object Object]''))"
| "elements_toString [] = Inr []"
| "elements_toString (x # xs) =
     (case (if x = JNull then Inr [] else json_toString x) of
        Inl e \<Rightarrow> Inl e
      | Inr s \<Rightarrow>
          (case elements_toString xs of
             Inl e \<Rightarrow> Inl e
           | Inr ss \<Rightarrow> Inr (s # ss)))"

section \<open>services/github.ts\<close>

definition BASE_URL :: jsstring where
  "BASE_URL = js ''https://api.github.com''"

subsection \<open>githubFetch\<close>

text \<open>
  The \<open>RequestInit\<close> options the callers pass: a method and a body. The body is kept as the
  JSON value that \<open>JSON.stringify\<close> serialises. No caller passes headers.
\<close>

record request_init =
  init_method :: "jsstring option"
  init_body :: "json option"

definition no_options :: request_init where
  "no_options = \<lparr>init_method = None, init_body = None\<rparr>"

record http_request =
  url :: jsstring
  headers :: "(jsstring \<times> jsstring) list"
  http_method :: "jsstring option"
  http_body :: "json option"

definition githubFetch_request :: "jsstring \<Rightarrow> jsstring \<Rightarrow> request_init \<Rightarrow> http_request" where
  "githubFetch_request endpoint token options =
     \<lparr>url = BASE_URL @ endpoint,
      headers = [(js ''Authorization'', js ''token '' @ token),
                 (js ''Accept'', js ''application/vnd.github.v3+json''),
                 (js ''Content-Type'', js ''application/json'')],
      http_method = init_method options,
      http_body = init_body options\<rparr>"

text \<open>
  The response: its status and the outcome of \<open>response.json()\<close>, which rejects with a
  \<open>SyntaxError\<close> when the body is not JSON.
\<close>

record response =
  status :: nat
  json_body :: "js_error + json"

definition ok :: "response \<Rightarrow> bool" where
  "ok r = (200 \<le> status r \<and> status r \<le> 299)"

text \<open>
  \<open>errorData.message\<close>: reading a property of \<open>null\<close> throws a \<open>TypeError\<close> (the message is
  V8's); an object yields the value stored under the key (\<open>lookup_last\<close>: the last one when
  the key is repeated); every other value has no such property.
\<close>

fun get_message :: "json \<Rightarrow> js_error + json option" where
  "get_message JNull = Inl (Error (js ''Cannot read properties of null (reading 'message')''))"
| "get_message (JObj kvs) = Inr (lookup_last (js ''message'') kvs)"
| "get_message _ = Inr None"

definition generic_message :: "nat \<Rightarrow> jsstring" where
  "generic_message st = js ''GitHub API Error: '' @ toString_nat st"

text \<open>
  \<open>githubFetch\<close> after the request is sent: \<open>fetched\<close> is the outcome of \<open>fetch\<close>, a
  rejection (no response at all) or a response. The result is the rejection or the
  resolved value of the returned promise; \<open>None\<close> is \<open>null\<close>.
\<close>

definition githubFetch :: "js_error + response \<Rightarrow> js_error + json option" where
  "githubFetch fetched =
     (case fetched of
        Inl e \<Rightarrow> Inl e
      | Inr response \<Rightarrow>
          if \<not> ok response then
            (let errorData = (case json_body response of Inl _ \<Rightarrow> JObj [] | Inr v \<Rightarrow> v)
             in case get_message errorData of
                  Inl e \<Rightarrow> Inl e
                | Inr m \<Rightarrow>
                    (case m of
                       None \<Rightarrow> Inl (Error (generic_message (status response)))
                     | Some v \<Rightarrow>
                         if truthy v then
                           (case json_toString v of
                              Inl e \<Rightarrow> Inl e
                            | Inr text \<Rightarrow> Inl (Error text))
                         else Inl (Error (generic_message (status response)))))
          else if status response = 204 then Inr None
          else (case json_body response of Inl e \<Rightarrow> Inl e | Inr v \<Rightarrow> Inr (Some v)))"

subsection \<open>getContents\<close>

definition cleanPath :: "jsstring \<Rightarrow> jsstring" where
  "cleanPath path = (if startsWith path (js ''/'') then slice1 path else path)"

definition contents_endpoint :: "jsstring \<Rightarrow> jsstring \<Rightarrow> jsstring \<Rightarrow> jsstring" where
  "contents_endpoint owner repo path =
     js ''/repos/'' @ owner @ js ''/'' @ repo @ js ''/contents/'' @ path"

definition getContents_request :: "jsstring \<Rightarrow> jsstring \<Rightarrow> jsstring \<Rightarrow> jsstring \<Rightarrow> http_request" where
  "getContents_request token owner repo path =
     githubFetch_request (contents_endpoint owner repo (cleanPath path)) token no_options"

subsection \<open>toBase64\<close>

text \<open>
  The browser's \<open>File\<close>: the fields the code reads, the bytes it holds, and whether a
  \<open>FileReader\<close> can read it (when it cannot, \<open>onerror\<close> fires instead of \<open>onload\<close>).
\<close>

record File =
  file_name :: jsstring
  webkitRelativePath :: jsstring
  file_type :: jsstring
  file_bytes :: "byte list"
  readable :: bool

text \<open>
  Base64 (RFC 4648), as \<open>readAsDataURL\<close> produces it: the bytes are cut into groups of
  six bits, the last group filled up with zero bits, each group is printed with the
  alphabet, and \<open>=\<close> pads the output to a multiple of four characters.
\<close>

definition base64_alphabet :: jsstring where
  "base64_alphabet = js ''ABCDEFGHIJKLMNOPQRSTUVWXYZabcdefghijklmnopqrstuvwxyz0123456789+/''"

fun sextets :: "byte list \<Rightarrow> nat list" where
  "sextets [] = []"
| "sextets [a] =
     (let n = unat a * 16 in [n div 64, n mod 64])"
| "sextets [a, b] =
     (let n = (unat a * 256 + unat b) * 4 in [n div 4096, n div 64 mod 64, n mod 64])"
| "sextets (a # b # c # bs) =
     (let n = (unat a * 256 + unat b) * 256 + unat c
      in [n div 262144, n div 4096 mod 64, n div 64 mod 64, n mod 64] @ sextets bs)"

definition base64_padding :: "nat \<Rightarrow> nat" where
  "base64_padding len = (3 - len mod 3) mod 3"

definition base64_encode :: "byte list \<Rightarrow> jsstring" where
  "base64_encode bs =
     map (\<lambda>i. base64_alphabet ! i) (sextets bs) @ replicate (base64_padding (length bs)) 61"

text \<open>
  \<open>FileReader.readAsDataURL\<close>: the result the reader holds when \<open>onload\<close> fires, a data
  URL of the media type and the encoded bytes. \<open>file_type\<close> is the media type the reader
  writes there.
\<close>

definition readAsDataURL :: "File \<Rightarrow> jsstring" where
  "readAsDataURL f = js ''data:'' @ file_type f @ js '';base64,'' @ base64_encode (file_bytes f)"

text \<open>
  \<open>replace(/^data:(.*,)?/, '')\<close>. The pattern matches at the start of the string only.
  After \<open>data:\<close> the greedy \<open>.*\<close> runs to the end of the first line (\<open>.\<close> matches no line
  terminator) and backtracks to the last comma of that line; with no comma there, the
  optional group matches nothing and only \<open>data:\<close> is removed.
\<close>

definition line_terminator :: "code_unit \<Rightarrow> bool" where
  "line_terminator c = (c = 10 \<or> c = 13 \<or> c = 8232 \<or> c = 8233)"

fun after_last_comma :: "jsstring \<Rightarrow> jsstring option" where
  "after_last_comma [] = None"
| "after_last_comma (c # cs) =
     (case after_last_comma cs of
        Some r \<Rightarrow> Some r
      | None \<Rightarrow> if c = 44 then Some cs else None)"

definition replace_data_prefix :: "jsstring \<Rightarrow> jsstring" where
  "replace_data_prefix s =
     (if startsWith s (js ''data:'') then
        (let rest = drop 5 s;
             line = takeWhile (\<lambda>c. \<not> line_terminator c) rest;
             tail = dropWhile (\<lambda>c. \<not> line_terminator c) rest
         in case after_last_comma line of
              Some r \<Rightarrow> r @ tail
            | None \<Rightarrow> rest)
      else s)"

text \<open>
  The body of \<open>reader.onload\<close>: \<open>result\<close> is \<open>reader.result\<close>, \<open>None\<close> when it is \<open>null\<close>.
  An empty replaced string is falsy and \<open>||\<close> puts the empty string in its place.
\<close>

definition toBase64_onload :: "jsstring option \<Rightarrow> jsstring" where
  "toBase64_onload result =
     (let replaced = (case result of None \<Rightarrow> None | Some s \<Rightarrow> Some (replace_data_prefix s));
          encoded = (case replaced of None \<Rightarrow> [] | Some r \<Rightarrow> if r \<noteq> [] then r else [])
      in if length encoded mod 4 > 0
         then encoded @ replicate (4 - length encoded mod 4) 61
         else encoded)"

definition toBase64 :: "File \<Rightarrow> js_error + jsstring" where
  "toBase64 f =
     (if readable f then Inr (toBase64_onload (Some (readAsDataURL f)))
      else Inl ProgressEvent)"

subsection \<open>createFile, deleteFile, createRepo\<close>

record CommitParams =
  cp_owner :: jsstring
  cp_repo :: jsstring
  cp_path :: jsstring
  cp_message :: jsstring
  cp_content :: jsstring
  cp_sha :: "jsstring option"

text \<open>The \<open>sha\<close> key is added only when \<open>sha\<close> is truthy: present and not empty.\<close>

definition createFile_request :: "jsstring \<Rightarrow> CommitParams \<Rightarrow> http_request" where
  "createFile_request token params =
     (let body = [(js ''message'', JStr (cp_message params)),
                  (js ''content'', JStr (cp_content params))];
          body' = (case cp_sha params of
                     Some sha \<Rightarrow> if sha \<noteq> [] then body @ [(js ''sha'', JStr sha)] else body
                   | None \<Rightarrow> body)
      in githubFetch_request
           (contents_endpoint (cp_owner params) (cp_repo params) (cp_path params)) token
           \<lparr>init_method = Some (js ''PUT''), init_body = Some (JObj body')\<rparr>)"

definition deleteFile_request ::
  "jsstring \<Rightarrow> jsstring \<Rightarrow> jsstring \<Rightarrow> jsstring \<Rightarrow> jsstring \<Rightarrow> jsstring \<Rightarrow> http_request" where
  "deleteFile_request token owner repo path sha msg =
     githubFetch_request (contents_endpoint owner repo path) token
       \<lparr>init_method = Some (js ''DELETE''),
        init_body = Some (JObj [(js ''message'', JStr msg), (js ''sha'', JStr sha)])\<rparr>"

record CreateRepoParams =
  crp_name :: jsstring
  crp_private :: bool
  crp_description :: "jsstring option"
  crp_auto_init :: "bool option"

text \<open>\<open>JSON.stringify\<close> leaves out a key whose value is \<open>undefined\<close>.\<close>

definition createRepo_request :: "jsstring \<Rightarrow> CreateRepoParams \<Rightarrow> http_request" where
  "createRepo_request token params =
     githubFetch_request (js ''/user/repos'') token
       \<lparr>init_method = Some (js ''POST''),
        init_body = Some (JObj
          ([(js ''name'', JStr (crp_name params)), (js ''private'', JBool (crp_private params))]
           @ (case crp_auto_init params of Some b \<Rightarrow> [(js ''auto_init'', JBool b)] | None \<Rightarrow> [])
           @ (case crp_description params of
                Some d \<Rightarrow> [(js ''description'', JStr d)] | None \<Rightarrow> [])))\<rparr>"

definition getUserRepos_request :: "jsstring \<Rightarrow> http_request" where
  "getUserRepos_request token =
     githubFetch_request (js ''/user/repos?sort=updated&per_page=100'') token no_options"

section \<open>types.ts\<close>

text \<open>The kind of an entry, declared as \<open>'file' | 'dir'\<close>.\<close>

datatype entry_type = File_type | Dir_type

record FileEntry =
  fe_name :: jsstring
  fe_path :: jsstring
  fe_sha :: jsstring
  fe_size :: nat
  fe_url :: jsstring
  fe_html_url :: jsstring
  fe_type :: entry_type
  fe_content :: "jsstring option"
  fe_encoding :: "jsstring option"

record Owner =
  login :: jsstring
  avatar_url :: jsstring

record Repository =
  repo_id :: nat
  repo_name :: jsstring
  full_name :: jsstring
  repo_private :: bool
  description :: "jsstring option"
  updated_at :: jsstring
  default_branch :: jsstring
  owner :: Owner

record GitHubUser =
  user_login :: jsstring
  user_id :: nat
  user_avatar_url :: jsstring
  user_name :: jsstring
  user_email :: "jsstring option"

record AuthState =
  user :: "GitHubUser option"
  token :: "jsstring option"
  isAuthenticated :: bool
  auth_loading :: bool

text \<open>The value \<open>getContents\<close> resolves to: \<open>FileEntry[] | FileEntry\<close>.\<close>

datatype contents = Listing "FileEntry list" | Single FileEntry

section \<open>The remote end and the effects of a handler\<close>

text \<open>
  Everything behind \<open>githubFetch\<close> (the network and the GitHub API) is a state machine the
  handlers are given: each function takes the remote state and the request, and returns
  how the promise settles, at the type the operation declares, with the next remote
  state. Commits (\<open>PUT\<close> and \<open>DELETE\<close> of a path) resolve to a value no caller reads.
\<close>

record 'r github_api =
  api_contents :: "'r \<Rightarrow> http_request \<Rightarrow> (js_error + contents) \<times> 'r"
  api_commit :: "'r \<Rightarrow> http_request \<Rightarrow> (js_error + unit) \<times> 'r"
  api_createRepo :: "'r \<Rightarrow> http_request \<Rightarrow> (js_error + Repository) \<times> 'r"
  api_userRepos :: "'r \<Rightarrow> http_request \<Rightarrow> (js_error + Repository list) \<times> 'r"

text \<open>
  What a handler leaves outside the component state: the remote state, the requests it
  dispatched in order, each with its failure if it failed, the \<open>alert\<close> boxes it raised and
  what it wrote with \<open>console.error\<close>.
\<close>

record 'r world =
  remote :: 'r
  calls :: "(http_request \<times> js_error option) list"
  alerts :: "jsstring list"
  console :: "js_error list"

definition failure :: "js_error + 'a \<Rightarrow> js_error option" where
  "failure res = (case res of Inl e \<Rightarrow> Some e | Inr _ \<Rightarrow> None)"

definition dispatch ::
  "('r \<Rightarrow> http_request \<Rightarrow> (js_error + 'a) \<times> 'r) \<Rightarrow> http_request \<Rightarrow> 'r world
     \<Rightarrow> (js_error + 'a) \<times> 'r world" where
  "dispatch op req w =
     (case op (remote w) req of
        (res, r') \<Rightarrow> (res, w\<lparr>remote := r', calls := calls w @ [(req, failure res)]\<rparr>))"

definition alert :: "jsstring \<Rightarrow> 'r world \<Rightarrow> 'r world" where
  "alert msg w = w\<lparr>alerts := alerts w @ [msg]\<rparr>"

definition console_error :: "js_error \<Rightarrow> 'r world \<Rightarrow> 'r world" where
  "console_error e w = w\<lparr>console := console w @ [e]\<rparr>"

text \<open>The operations of \<open>githubService\<close>, awaited.\<close>

definition getContents ::
  "'r github_api \<Rightarrow> jsstring \<Rightarrow> jsstring \<Rightarrow> jsstring \<Rightarrow> jsstring \<Rightarrow> 'r world
     \<Rightarrow> (js_error + contents) \<times> 'r world" where
  "getContents api tok own repo path = dispatch (api_contents api) (getContents_request tok own repo path)"

definition createFile ::
  "'r github_api \<Rightarrow> jsstring \<Rightarrow> CommitParams \<Rightarrow> 'r world \<Rightarrow> (js_error + unit) \<times> 'r world" where
  "createFile api tok params = dispatch (api_commit api) (createFile_request tok params)"

definition deleteFile ::
  "'r github_api \<Rightarrow> jsstring \<Rightarrow> jsstring \<Rightarrow> jsstring \<Rightarrow> jsstring \<Rightarrow> jsstring \<Rightarrow> jsstring
     \<Rightarrow> 'r world \<Rightarrow> (js_error + unit) \<times> 'r world" where
  "deleteFile api tok own repo path sha msg =
     dispatch (api_commit api) (deleteFile_request tok own repo path sha msg)"

definition createRepo ::
  "'r github_api \<Rightarrow> jsstring \<Rightarrow> CreateRepoParams \<Rightarrow> 'r world
     \<Rightarrow> (js_error + Repository) \<times> 'r world" where
  "createRepo api tok params = dispatch (api_createRepo api) (createRepo_request tok params)"

section \<open>components/FileExplorer.tsx\<close>

text \<open>
  The component state, one field per \<open>useState\<close>. The props \<open>repo\<close> and \<open>token\<close> are
  arguments of the handlers. A handler runs to the end before the next event is taken.
\<close>

record explorer =
  currentPath :: jsstring
  entries :: "FileEntry list"
  loading :: bool
  selectedFile :: "FileEntry option"
  fileContent :: "jsstring option"
  uploading :: bool
  uploadStatus :: jsstring
  isMenuOpen :: bool

text \<open>The values the \<open>useState\<close> calls start with.\<close>

definition initial_explorer :: explorer where
  "initial_explorer =
     \<lparr>currentPath = [], entries = [], loading = True, selectedFile = None, fileContent = None,
      uploading = False, uploadStatus = [], isMenuOpen = False\<rparr>"

subsection \<open>fetchContents\<close>

text \<open>
  \<open>Array.prototype.sort\<close> with a comparator. The sort is stable, and for a consistent
  comparator the result is the one stable ordering of the elements, whatever the
  engine's algorithm; here each element is inserted, from the right, in front of the
  first element that it does not compare greater than.
\<close>

fun insert_sorted :: "('a \<Rightarrow> 'a \<Rightarrow> int) \<Rightarrow> 'a \<Rightarrow> 'a list \<Rightarrow> 'a list" where
  "insert_sorted cmp x [] = [x]"
| "insert_sorted cmp x (y # ys) =
     (if cmp x y \<le> 0 then x # y # ys else y # insert_sorted cmp x ys)"

fun array_sort :: "('a \<Rightarrow> 'a \<Rightarrow> int) \<Rightarrow> 'a list \<Rightarrow> 'a list" where
  "array_sort cmp [] = []"
| "array_sort cmp (x # xs) = insert_sorted cmp x (array_sort cmp xs)"

text \<open>
  The comparator of the listing. \<open>String.prototype.localeCompare\<close> belongs to the host and
  follows its locale; it is an argument.
\<close>

definition compareEntries ::
  "(jsstring \<Rightarrow> jsstring \<Rightarrow> int) \<Rightarrow> FileEntry \<Rightarrow> FileEntry \<Rightarrow> int" where
  "compareEntries localeCompare a b =
     (if fe_type a = fe_type b then localeCompare (fe_name a) (fe_name b)
      else if fe_type a = Dir_type then - 1 else 1)"

definition fetchContents ::
  "'r github_api \<Rightarrow> (jsstring \<Rightarrow> jsstring \<Rightarrow> int) \<Rightarrow> jsstring \<Rightarrow> Repository \<Rightarrow> jsstring
     \<Rightarrow> explorer \<times> 'r world \<Rightarrow> explorer \<times> 'r world" where
  "fetchContents api localeCompare tok repo path sw =
     (case sw of (st, w) \<Rightarrow>
        let st1 = st\<lparr>loading := True, selectedFile := None, fileContent := None\<rparr>
        in case getContents api tok (login (owner repo)) (repo_name repo) path w of
             (Inr (Listing data), w1) \<Rightarrow>
               (st1\<lparr>entries := array_sort (compareEntries localeCompare) data,
                    loading := False\<rparr>, w1)
           | (Inr (Single data), w1) \<Rightarrow> (st1\<lparr>entries := [data], loading := False\<rparr>, w1)
           | (Inl err, w1) \<Rightarrow> (st1\<lparr>entries := [], loading := False\<rparr>, console_error err w1))"

text \<open>
  The effect on \<open>currentPath\<close>: setting a different path re-renders and runs
  \<open>fetchContents\<close> on it; setting the same path changes nothing.
\<close>

definition setCurrentPath ::
  "'r github_api \<Rightarrow> (jsstring \<Rightarrow> jsstring \<Rightarrow> int) \<Rightarrow> jsstring \<Rightarrow> Repository \<Rightarrow> jsstring
     \<Rightarrow> explorer \<times> 'r world \<Rightarrow> explorer \<times> 'r world" where
  "setCurrentPath api localeCompare tok repo path sw =
     (case sw of (st, w) \<Rightarrow>
        if path = currentPath st then (st, w)
        else fetchContents api localeCompare tok repo path (st\<lparr>currentPath := path\<rparr>, w))"

subsection \<open>handleEntryClick\<close>

text \<open>
  \<open>atob\<close>, the forgiving-base64 decode of the HTML standard: ASCII whitespace is removed;
  when the length is then a multiple of four, one or two trailing \<open>=\<close> are removed; a
  length that leaves remainder one, or a character outside the alphabet, is an
  \<open>InvalidCharacterError\<close>; the six-bit groups are put together and cut into bytes, the
  spare bits of the last group dropped. The result is a string with one character per
  byte.
\<close>

definition ascii_whitespace :: "code_unit \<Rightarrow> bool" where
  "ascii_whitespace c = (c = 9 \<or> c = 10 \<or> c = 12 \<or> c = 13 \<or> c = 32)"

fun index_of :: "'a \<Rightarrow> 'a list \<Rightarrow> nat option" where
  "index_of x [] = None"
| "index_of x (y # ys) =
     (if x = y then Some 0 else map_option Suc (index_of x ys))"

fun those_values :: "jsstring \<Rightarrow> nat list option" where
  "those_values [] = Some []"
| "those_values (c # cs) =
     (case index_of c base64_alphabet of
        None \<Rightarrow> None
      | Some v \<Rightarrow> map_option ((#) v) (those_values cs))"

definition strip_padding :: "jsstring \<Rightarrow> jsstring" where
  "strip_padding s =
     (let n = length s in
      if 2 \<le> n \<and> s ! (n - 1) = 61 \<and> s ! (n - 2) = 61 then take (n - 2) s
      else if 1 \<le> n \<and> s ! (n - 1) = 61 then take (n - 1) s
      else s)"

fun decode_sextets :: "nat list \<Rightarrow> byte list" where
  "decode_sextets (a # b # c # d # vs) =
     (let n = ((a * 64 + b) * 64 + c) * 64 + d
      in of_nat (n div 65536) # of_nat (n div 256 mod 256) # of_nat (n mod 256)
           # decode_sextets vs)"
| "decode_sextets [a, b, c] =
     (let n = ((a * 64 + b) * 64 + c) div 4
      in [of_nat (n div 256), of_nat (n mod 256)])"
| "decode_sextets [a, b] = [of_nat ((a * 64 + b) div 16)]"
| "decode_sextets _ = []"

definition InvalidCharacterError :: js_error where
  "InvalidCharacterError = Error (js ''The string to be decoded is not correctly encoded.'')"

definition atob :: "jsstring \<Rightarrow> js_error + jsstring" where
  "atob data =
     (let d1 = filter (\<lambda>c. \<not> ascii_whitespace c) data;
          d2 = (if length d1 mod 4 = 0 then strip_padding d1 else d1)
      in if length d2 mod 4 = 1 then Inl InvalidCharacterError
         else case those_values d2 of
                None \<Rightarrow> Inl InvalidCharacterError
              | Some vs \<Rightarrow> Inr (map ucast (decode_sextets vs)))"

text \<open>
  The bytes the handler computes from \<open>data.content\<close>: line feeds removed, \<open>atob\<close>, and each
  character code stored into a \<open>Uint8Array\<close>, which keeps its low eight bits.
\<close>

definition content_bytes :: "jsstring \<Rightarrow> js_error + byte list" where
  "content_bytes content =
     (case atob (filter (\<lambda>c. c \<noteq> 10) content) of
        Inl e \<Rightarrow> Inl e
      | Inr binaryString \<Rightarrow> Inr (map ucast binaryString))"

text \<open>
  The decoding of \<open>data.content\<close>: those bytes, given to the host's
  \<open>TextDecoder('utf-8').decode\<close>, which is an argument; it never throws.
\<close>

definition decoded_text :: "(byte list \<Rightarrow> jsstring) \<Rightarrow> jsstring \<Rightarrow> js_error + jsstring" where
  "decoded_text decode content =
     (case content_bytes content of
        Inl e \<Rightarrow> Inl e
      | Inr bytes \<Rightarrow> Inr (decode bytes))"

text \<open>
  The text given to \<open>setFileContent\<close> for the settled \<open>getContents\<close> call. An array in
  place of the entry has no \<open>content\<close>, and an empty \<open>content\<close> is falsy.
\<close>

definition shown_content :: "(byte list \<Rightarrow> jsstring) \<Rightarrow> js_error + contents \<Rightarrow> jsstring" where
  "shown_content decode res =
     (case res of
        Inl err \<Rightarrow> js ''Error loading content.''
      | Inr data \<Rightarrow>
          (case (case data of Single e \<Rightarrow> fe_content e | Listing _ \<Rightarrow> None) of
             None \<Rightarrow> js ''File is too large to display or is binary.''
           | Some content \<Rightarrow>
               if content \<noteq> [] then
                 (case decoded_text decode content of
                    Inl err \<Rightarrow> js ''Error loading content.''
                  | Inr decoded \<Rightarrow> decoded)
               else js ''File is too large to display or is binary.''))"

definition handleEntryClick ::
  "'r github_api \<Rightarrow> (jsstring \<Rightarrow> jsstring \<Rightarrow> int) \<Rightarrow> (byte list \<Rightarrow> jsstring) \<Rightarrow> jsstring
     \<Rightarrow> Repository \<Rightarrow> FileEntry \<Rightarrow> explorer \<times> 'r world \<Rightarrow> explorer \<times> 'r world" where
  "handleEntryClick api localeCompare decode tok repo entry sw =
     (case sw of (st, w) \<Rightarrow>
        if fe_type entry = Dir_type
        then setCurrentPath api localeCompare tok repo (fe_path entry) (st, w)
        else
          (let st1 = st\<lparr>selectedFile := Some entry, loading := True\<rparr>
           in case getContents api tok (login (owner repo)) (repo_name repo) (fe_path entry) w of
                (res, w1) \<Rightarrow>
                  (st1\<lparr>fileContent := Some (shown_content decode res), loading := False\<rparr>, w1)))"

subsection \<open>handleFileUpload\<close>

text \<open>The path and the commit of one file; \<open>||\<close> and \<open>?:\<close> test for the empty string.\<close>

definition finalPath :: "jsstring \<Rightarrow> File \<Rightarrow> jsstring" where
  "finalPath cur f =
     (let relativePath = (if webkitRelativePath f \<noteq> [] then webkitRelativePath f else file_name f)
      in if cur \<noteq> [] then cur @ js ''/'' @ relativePath else relativePath)"

definition upload_params :: "Repository \<Rightarrow> jsstring \<Rightarrow> File \<Rightarrow> jsstring \<Rightarrow> CommitParams" where
  "upload_params repo cur f content =
     \<lparr>cp_owner = login (owner repo),
      cp_repo = repo_name repo,
      cp_path = finalPath cur f,
      cp_message = js ''Add '' @ file_name f @ js '' via GitLite'',
      cp_content = content,
      cp_sha = None\<rparr>"

text \<open>
  The \<open>for\<close> loop over the files, inside the \<open>try\<close>: the first rejection, of \<open>toBase64\<close> or
  of \<open>createFile\<close>, leaves the loop with that error. \<open>cur\<close> is the \<open>currentPath\<close> the
  handler was created with.
\<close>

fun upload_loop ::
  "'r github_api \<Rightarrow> jsstring \<Rightarrow> Repository \<Rightarrow> jsstring \<Rightarrow> File list \<Rightarrow> explorer \<times> 'r world
     \<Rightarrow> (js_error + unit) \<times> explorer \<times> 'r world" where
  "upload_loop api tok repo cur [] (st, w) = (Inr (), st, w)"
| "upload_loop api tok repo cur (f # fs) (st, w) =
     (let st1 = st\<lparr>uploadStatus := js ''Uploading '' @ file_name f @ js ''...''\<rparr>
      in case toBase64 f of
           Inl err \<Rightarrow> (Inl err, st1, w)
         | Inr content \<Rightarrow>
             (case createFile api tok (upload_params repo cur f content) w of
                (Inl err, w1) \<Rightarrow> (Inl err, st1, w1)
              | (Inr _, w1) \<Rightarrow> upload_loop api tok repo cur fs (st1, w1)))"

text \<open>
  The handler, up to the point where everything it started has settled. The timer that
  clears the status two seconds after a complete upload is not part of it.
\<close>

definition handleFileUpload ::
  "'r github_api \<Rightarrow> (jsstring \<Rightarrow> jsstring \<Rightarrow> int) \<Rightarrow> jsstring \<Rightarrow> Repository \<Rightarrow> File list
     \<Rightarrow> explorer \<times> 'r world \<Rightarrow> explorer \<times> 'r world" where
  "handleFileUpload api localeCompare tok repo files sw =
     (case sw of (st, w) \<Rightarrow>
        if files = [] then (st, w)
        else
          (case upload_loop api tok repo (currentPath st) files
                  (st\<lparr>uploading := True, isMenuOpen := False\<rparr>, w) of
             (Inr _, st2, w2) \<Rightarrow>
               (case fetchContents api localeCompare tok repo (currentPath st)
                       (st2\<lparr>uploadStatus := js ''Upload complete!''\<rparr>, w2) of
                  (st3, w3) \<Rightarrow> (st3\<lparr>uploading := False\<rparr>, w3))
           | (Inl err, st2, w2) \<Rightarrow>
               (st2\<lparr>uploadStatus := [], uploading := False\<rparr>,
                alert (js ''Upload failed: '' @ message_text err) w2)))"

subsection \<open>handleDelete\<close>

text \<open>\<open>confirmed\<close> is the user's answer to the \<open>confirm\<close> box.\<close>

definition handleDelete ::
  "'r github_api \<Rightarrow> (jsstring \<Rightarrow> jsstring \<Rightarrow> int) \<Rightarrow> jsstring \<Rightarrow> Repository \<Rightarrow> bool
     \<Rightarrow> explorer \<times> 'r world \<Rightarrow> explorer \<times> 'r world" where
  "handleDelete api localeCompare tok repo confirmed sw =
     (case sw of (st, w) \<Rightarrow>
        (case selectedFile st of
           None \<Rightarrow> (st, w)
         | Some sel \<Rightarrow>
             if \<not> confirmed then (st, w)
             else
               (case deleteFile api tok (login (owner repo)) (repo_name repo)
                       (fe_path sel) (fe_sha sel) (js ''Delete '' @ fe_name sel) w of
                  (Inr _, w1) \<Rightarrow>
                    fetchContents api localeCompare tok repo (currentPath st)
                      (st\<lparr>loading := True, selectedFile := None\<rparr>, w1)
                | (Inl err, w1) \<Rightarrow>
                    (st\<lparr>loading := False\<rparr>,
                     alert (js ''Delete failed: '' @ message_text err) w1))))"

subsection \<open>What is rendered\<close>

text \<open>The main content area: the first branch of the conditional that applies.\<close>

datatype view = Loading | ViewingFile FileEntry | Empty | ListingView "FileEntry list"

definition render :: "explorer \<Rightarrow> view" where
  "render st =
     (if loading st then Loading
      else case selectedFile st of
             Some sel \<Rightarrow> ViewingFile sel
           | None \<Rightarrow> if length (entries st) = 0 then Empty else ListingView (entries st))"

section \<open>App.tsx\<close>

record app =
  authData :: AuthState
  repos :: "Repository list"
  selectedRepo :: "Repository option"
  repoLoading :: bool

text \<open>
  \<open>handleCreateRepo\<close>: the result is how the returned promise settles. A missing or empty
  token is falsy and the handler returns at once.
\<close>

definition handleCreateRepo ::
  "'r github_api \<Rightarrow> jsstring \<Rightarrow> bool \<Rightarrow> app \<times> 'r world \<Rightarrow> (js_error + unit) \<times> app \<times> 'r world" where
  "handleCreateRepo api name isPrivate aw =
     (case aw of (a, w) \<Rightarrow>
        (case token (authData a) of
           None \<Rightarrow> (Inr (), a, w)
         | Some tok \<Rightarrow>
             if tok = [] then (Inr (), a, w)
             else
               (case createRepo api tok
                       \<lparr>crp_name = name, crp_private = isPrivate,
                        crp_description = Some (js ''Created via GitLite Mobile''),
                        crp_auto_init = Some True\<rparr> w of
                  (Inr newRepo, w1) \<Rightarrow> (Inr (), a\<lparr>repos := newRepo # repos a\<rparr>, w1)
                | (Inl err, w1) \<Rightarrow> (Inl err, a, console_error err w1))))"

section \<open>components/RepoList.tsx\<close>

record repo_list =
  searchTerm :: jsstring
  showCreateModal :: bool
  newRepoName :: jsstring
  newRepoPrivate :: bool
  creating :: bool

definition initial_repo_list :: repo_list where
  "initial_repo_list =
     \<lparr>searchTerm = [], showCreateModal = False, newRepoName = [], newRepoPrivate = False,
      creating = False\<rparr>"

text \<open>The characters \<open>\s\<close> matches: white space and line terminators.\<close>

definition white_space :: "code_unit \<Rightarrow> bool" where
  "white_space c =
     (c = 9 \<or> c = 10 \<or> c = 11 \<or> c = 12 \<or> c = 13 \<or> c = 32 \<or> c = 160 \<or> c = 5760
      \<or> (8192 \<le> c \<and> c \<le> 8202) \<or> c = 8232 \<or> c = 8233 \<or> c = 8239 \<or> c = 8287
      \<or> c = 12288 \<or> c = 65279)"

text \<open>
  \<open>replace(/\s+/g, '-')\<close>: from left to right, a character that is no white space is
  kept; at a white space character the greedy \<open>\s+\<close> takes all the white space that
  follows, and one hyphen is written for the match.
\<close>

function replace_whitespace :: "jsstring \<Rightarrow> jsstring" where
  "replace_whitespace [] = []"
| "replace_whitespace (c # cs) =
     (if white_space c then 45 # replace_whitespace (dropWhile white_space cs)
      else c # replace_whitespace cs)"
  by pat_completeness auto
termination
  by (relation "measure length") (auto simp: less_Suc_eq_le length_dropWhile_le)

definition onChange_name :: "jsstring \<Rightarrow> repo_list \<Rightarrow> repo_list" where
  "onChange_name v st = st\<lparr>newRepoName := replace_whitespace v\<rparr>"

text \<open>
  \<open>handleCreate\<close>, the form's submit handler. \<open>onCreateRepo\<close> is the prop: it works on the
  state of the parent and on the world.
\<close>

definition handleCreate ::
  "(jsstring \<Rightarrow> bool \<Rightarrow> 'p \<times> 'r world \<Rightarrow> (js_error + unit) \<times> 'p \<times> 'r world)
     \<Rightarrow> repo_list \<times> 'p \<times> 'r world \<Rightarrow> repo_list \<times> 'p \<times> 'r world" where
  "handleCreate onCreateRepo spw =
     (case spw of (st, pw) \<Rightarrow>
        if newRepoName st = [] then (st, pw)
        else
          (case onCreateRepo (newRepoName st) (newRepoPrivate st) pw of
             (Inr _, p1, w1) \<Rightarrow>
               (st\<lparr>showCreateModal := False, newRepoName := [], creating := False\<rparr>, p1, w1)
           | (Inl err, p1, w1) \<Rightarrow>
               (st\<lparr>creating := False\<rparr>, p1, alert (js ''Failed to create repository'') w1)))"

text \<open>
  The events of the component, as the JSX binds them: typing into the search box, opening
  and cancelling the dialog, typing into the name field, ticking the box, and submitting
  the form. In \<open>App\<close> the prop \<open>onCreateRepo\<close> is \<open>handleCreateRepo\<close>.
\<close>

datatype repo_list_event =
    SearchInput jsstring
  | OpenCreateModal
  | CancelCreate
  | NameInput jsstring
  | PrivateInput bool
  | SubmitCreate

fun repo_list_step ::
  "'r github_api \<Rightarrow> repo_list_event \<Rightarrow> repo_list \<times> app \<times> 'r world \<Rightarrow> repo_list \<times> app \<times> 'r world" where
  "repo_list_step api (SearchInput v) (st, aw) = (st\<lparr>searchTerm := v\<rparr>, aw)"
| "repo_list_step api OpenCreateModal (st, aw) = (st\<lparr>showCreateModal := True\<rparr>, aw)"
| "repo_list_step api CancelCreate (st, aw) = (st\<lparr>showCreateModal := False\<rparr>, aw)"
| "repo_list_step api (NameInput v) (st, aw) = (onChange_name v st, aw)"
| "repo_list_step api (PrivateInput b) (st, aw) = (st\<lparr>newRepoPrivate := b\<rparr>, aw)"
| "repo_list_step api SubmitCreate (st, aw) = handleCreate (handleCreateRepo api) (st, aw)"

fun run_events ::
  "'r github_api \<Rightarrow> repo_list_event list \<Rightarrow> repo_list \<times> app \<times> 'r world \<Rightarrow> repo_list \<times> app \<times> 'r world" where
  "run_events api [] s = s"
| "run_events api (ev # evs) s = run_events api evs (repo_list_step api ev s)"

section \<open>Vocabulary of the properties\<close>

text \<open>
  The commit request of one uploaded file, and the log and remote state that arise when
  commit requests are sent one after another, each to the state the one before has left.
\<close>

definition upload_request :: "jsstring \<Rightarrow> Repository \<Rightarrow> jsstring \<Rightarrow> File \<Rightarrow> http_request" where
  "upload_request tok repo cur f =
     createFile_request tok
       (upload_params repo cur f (case toBase64 f of Inr content \<Rightarrow> content | Inl _ \<Rightarrow> []))"

fun replay ::
  "'r github_api \<Rightarrow> 'r \<Rightarrow> http_request list \<Rightarrow> (http_request \<times> js_error option) list \<times> 'r" where
  "replay api r [] = ([], r)"
| "replay api r (q # qs) =
     (case api_commit api r q of
        (res, r') \<Rightarrow>
          (case replay api r' qs of (log, r'') \<Rightarrow> ((q, failure res) # log, r'')))"

text \<open>
  The requests of the handlers: the deletion of the selected entry, the listing of a path,
  and the parameters \<open>handleCreateRepo\<close> passes to \<open>createRepo\<close>.
\<close>

definition delete_request :: "jsstring \<Rightarrow> Repository \<Rightarrow> FileEntry \<Rightarrow> http_request" where
  "delete_request tok repo sel =
     deleteFile_request tok (login (owner repo)) (repo_name repo) (fe_path sel) (fe_sha sel)
       (js ''Delete '' @ fe_name sel)"

definition listing_request :: "jsstring \<Rightarrow> Repository \<Rightarrow> jsstring \<Rightarrow> http_request" where
  "listing_request tok repo path =
     getContents_request tok (login (owner repo)) (repo_name repo) path"

definition new_repo_params :: "jsstring \<Rightarrow> bool \<Rightarrow> CreateRepoParams" where
  "new_repo_params name isPrivate =
     \<lparr>crp_name = name, crp_private = isPrivate,
      crp_description = Some (js ''Created via GitLite Mobile''), crp_auto_init = Some True\<rparr>"

text \<open>
  The replacement of white space in the words of the specification: the string is cut
  into its maximal runs of characters that are all white space or all not, and every run
  of white space is replaced by one hyphen.
\<close>

fun runs :: "('a \<Rightarrow> bool) \<Rightarrow> 'a list \<Rightarrow> 'a list list" where
  "runs P [] = []"
| "runs P (x # xs) =
     (case runs P xs of
        (y # r) # rs \<Rightarrow> if P x = P y then (x # y # r) # rs else [x] # (y # r) # rs
      | _ \<Rightarrow> [[x]])"

definition hyphenate_runs :: "jsstring \<Rightarrow> jsstring" where
  "hyphenate_runs s =
     concat (map (\<lambda>r. if list_all white_space r then [45] else r) (runs white_space s))"

text \<open>
  The \<open>message\<close> field of an error body: what \<open>errorData.message\<close> reads when the body is
  not \<open>null\<close>. There is none when the body is not JSON, is not an object, or has no such
  key.
\<close>

definition message_field :: "response \<Rightarrow> json option" where
  "message_field r =
     (case json_body r of
        Inr (JObj kvs) \<Rightarrow> lookup_last (js ''message'') kvs
      | _ \<Rightarrow> None)"

section \<open>Example inputs\<close>

text \<open>A two-byte text file, \<open>hi\<close>.\<close>

definition example_file :: File where
  "example_file =
     \<lparr>file_name = js ''hi.txt'', webkitRelativePath = [], file_type = js ''text/plain'',
      file_bytes = [104, 105], readable = True\<rparr>"

text \<open>
  The lexicographic order of strings by their code units, as a comparator: the order
  that \<open><\<close> has on strings.
\<close>

fun codeUnitCompare :: "jsstring \<Rightarrow> jsstring \<Rightarrow> int" where
  "codeUnitCompare [] [] = 0"
| "codeUnitCompare [] (y # ys) = - 1"
| "codeUnitCompare (x # xs) [] = 1"
| "codeUnitCompare (x # xs) (y # ys) =
     (if x < y then - 1 else if y < x then 1 else codeUnitCompare xs ys)"

text \<open>
  A repository, a listing, and a remote end that counts the requests it has received and
  rejects the commit that arrives second.
\<close>

definition example_repo :: Repository where
  "example_repo =
     \<lparr>repo_id = 1, repo_name = js ''demo'', full_name = js ''octocat/demo'', repo_private = False,
      description = None, updated_at = js ''2024-01-01T00:00:00Z'', default_branch = js ''main'',
      owner = \<lparr>login = js ''octocat'', avatar_url = []\<rparr>\<rparr>"

definition example_entry :: "string \<Rightarrow> entry_type \<Rightarrow> FileEntry" where
  "example_entry n t =
     \<lparr>fe_name = js n, fe_path = js n, fe_sha = js ''abc'', fe_size = 2, fe_url = [], fe_html_url = [],
      fe_type = t, fe_content = None, fe_encoding = None\<rparr>"

definition example_listing :: "FileEntry list" where
  "example_listing =
     [example_entry ''b'' File_type, example_entry ''z'' Dir_type,
      example_entry ''a'' File_type, example_entry ''c'' Dir_type]"

definition example_api :: "nat github_api" where
  "example_api =
     \<lparr>api_contents = (\<lambda>r q. (Inr (Listing example_listing), Suc r)),
      api_commit = (\<lambda>r q. (if r = 1 then Inl (Error (js ''conflict'')) else Inr (), Suc r)),
      api_createRepo = (\<lambda>r q. (Inr example_repo, Suc r)),
      api_userRepos = (\<lambda>r q. (Inr [example_repo], Suc r))\<rparr>"

definition example_world :: "nat world" where
  "example_world = \<lparr>remote = 0, calls = [], alerts = [], console = []\<rparr>"

definition example_files :: "File list" where
  "example_files =
     [example_file\<lparr>file_name := js ''a.txt''\<rparr>, example_file\<lparr>file_name := js ''b.txt''\<rparr>,
      example_file\<lparr>file_name := js ''c.txt''\<rparr>]"

text \<open>An explorer that shows a file, and an application state with a token.\<close>

definition example_viewing :: explorer where
  "example_viewing =
     initial_explorer\<lparr>loading := False, selectedFile := Some (example_entry ''a'' File_type),
       fileContent := Some (js ''hi'')\<rparr>"

definition example_app :: app where
  "example_app =
     \<lparr>authData = \<lparr>user = None, token = Some (js ''t''), isAuthenticated = True, auth_loading = False\<rparr>,
      repos = [example_repo\<lparr>repo_name := js ''old''\<rparr>], selectedRepo = None, repoLoading = False\<rparr>"

text \<open>
  A decoder for ASCII bytes, one character for each byte, which is what UTF-8 decoding
  gives for bytes below 128.
\<close>

definition ascii_text :: "byte list \<Rightarrow> jsstring" where
  "ascii_text bs = map ucast bs"

text \<open>
  \<open>localeCompare\<close> as the host has it by default, the root order of the Unicode Collation
  Algorithm, written out for names of ASCII letters and digits: names are compared
  first without regard to case, and names that are equal up to case are ordered by case
  at the first difference, lower case first. Other characters are compared by code unit
  here, which is not said of the host.
\<close>

definition fold_case :: "code_unit \<Rightarrow> code_unit" where
  "fold_case c = (if 65 \<le> c \<and> c \<le> 90 then c + 32 else c)"

definition case_weight :: "code_unit \<Rightarrow> code_unit" where
  "case_weight c = (if 65 \<le> c \<and> c \<le> 90 then 1 else 0)"

definition collate :: "jsstring \<Rightarrow> jsstring \<Rightarrow> int" where
  "collate a b =
     (let primary = codeUnitCompare (map fold_case a) (map fold_case b)
      in if primary \<noteq> 0 then primary
         else codeUnitCompare (map case_weight a) (map case_weight b))"

text \<open>A listing whose names differ in case, and a remote end that serves it.\<close>

definition letters_listing :: "FileEntry list" where
  "letters_listing =
     [example_entry ''Z'' File_type, example_entry ''src'' Dir_type, example_entry ''B'' File_type,
      example_entry ''b'' File_type, example_entry ''Docs'' Dir_type, example_entry ''a'' File_type]"

definition letters_api :: "nat github_api" where
  "letters_api = example_api\<lparr>api_contents := (\<lambda>r q. (Inr (Listing letters_listing), Suc r))\<rparr>"

section \<open>Properties\<close>

subsection \<open>Strings\<close>

lemma js_append: "js (a @ b) = js a @ js b"
  by (simp add: js_def)

subsection \<open>Path normalisation\<close>

lemma cleanPath_slash: "cleanPath (js ''/'' @ p) = p"
  by (simp add: cleanPath_def startsWith_def slice1_def js_def)

text \<open>
  C3. \<open>getContents\<close> strips one leading slash from the path before the request is
  dispatched, and leaves a path without one as it is; called with \<open>/src/index.ts\<close> and with
  \<open>src/index.ts\<close> it dispatches the same request, to the remote path \<open>src/index.ts\<close>.
\<close>

theorem getContents_strips_leading_slash:
  "cleanPath (js ''/'' @ p) = p
   \<and> (\<not> startsWith p (js ''/'') \<longrightarrow> cleanPath p = p)
   \<and> url (getContents_request tok own repo (js ''/'' @ p)) = BASE_URL @ contents_endpoint own repo p
   \<and> getContents_request tok own repo (js ''/src/index.ts'')
       = getContents_request tok own repo (js ''src/index.ts'')
   \<and> url (getContents_request tok own repo (js ''/src/index.ts''))
       = BASE_URL @ js ''/repos/'' @ own @ js ''/'' @ repo @ js ''/contents/src/index.ts''"
  by (simp add: cleanPath_slash getContents_request_def githubFetch_request_def
        contents_endpoint_def js_append [symmetric] del: append.simps)
    (simp add: cleanPath_def startsWith_def slice1_def js_def)

theorem getContents_strips_leading_slash_witness:
  "cleanPath (js ''/src/index.ts'') = js ''src/index.ts''
   \<and> \<not> startsWith (js ''src/index.ts'') (js ''/'')
   \<and> cleanPath (js ''src/index.ts'') = js ''src/index.ts''
   \<and> url (getContents_request (js ''t'') (js ''octocat'') (js ''demo'') (js ''/src/index.ts''))
       = js ''https://api.github.com/repos/octocat/demo/contents/src/index.ts''
   \<and> url (getContents_request (js ''t'') (js ''octocat'') (js ''demo'') (js ''src/index.ts''))
       = js ''https://api.github.com/repos/octocat/demo/contents/src/index.ts''"
proof -
  note T = getContents_strips_leading_slash
    [of "js ''src/index.ts''" "js ''t''" "js ''octocat''" "js ''demo''"]
  have n: "\<not> startsWith (js ''src/index.ts'') (js ''/'')"
    by (simp add: startsWith_def js_def)
  have e: "js ''/src/index.ts'' = js ''/'' @ js ''src/index.ts''"
    by (simp add: js_def)
  have u: "BASE_URL @ contents_endpoint (js ''octocat'') (js ''demo'') (js ''src/index.ts'')
           = js ''https://api.github.com/repos/octocat/demo/contents/src/index.ts''"
    by (simp add: BASE_URL_def contents_endpoint_def js_def)
  have 1: "cleanPath (js ''/src/index.ts'') = js ''src/index.ts''"
    unfolding e using T by blast
  have 2: "cleanPath (js ''src/index.ts'') = js ''src/index.ts''"
    using T n by blast
  have 3: "url (getContents_request (js ''t'') (js ''octocat'') (js ''demo'') (js ''/src/index.ts''))
       = js ''https://api.github.com/repos/octocat/demo/contents/src/index.ts''"
    unfolding e using T u by simp
  have 4: "getContents_request (js ''t'') (js ''octocat'') (js ''demo'') (js ''/src/index.ts'')
       = getContents_request (js ''t'') (js ''octocat'') (js ''demo'') (js ''src/index.ts'')"
    using T by blast
  show ?thesis
    using 1 2 3 n unfolding 4 by simp
qed

subsection \<open>Error normalisation\<close>

text \<open>
  C4, as stated, at three responses. A 404 whose body is not JSON gets the message
  \<open>GitHub API Error: 404\<close>, not \<open>API Error: 404\<close>. A 404 whose body holds an empty
  \<open>message\<close> gets the generic message and not that field. A 500 whose body is \<open>null\<close>
  gets the message of a \<open>TypeError\<close>, which is neither the generic string nor a field.
\<close>

theorem githubFetch_error_message_counterexample:
  "githubFetch (Inr \<lparr>status = 404, json_body = Inl (Error (js ''Unexpected end of JSON input''))\<rparr>)
     = Inl (Error (js ''GitHub API Error: 404''))
   \<and> js ''GitHub API Error: 404'' \<noteq> js ''API Error: 404''
   \<and> githubFetch (Inr \<lparr>status = 404, json_body = Inr (JObj [(js ''message'', JStr [])])\<rparr>)
     = Inl (Error (js ''GitHub API Error: 404''))
   \<and> githubFetch (Inr \<lparr>status = 500, json_body = Inr JNull\<rparr>)
     = Inl (Error (js ''Cannot read properties of null (reading 'message')''))
   \<and> js ''Cannot read properties of null (reading 'message')'' \<noteq> js ''API Error: 500''"
proof -
  have g: "generic_message 404 = js ''GitHub API Error: 404''"
    by (simp add: generic_message_def toString_nat.simps js_def)
  have 1: "githubFetch (Inr \<lparr>status = 404, json_body = Inl (Error (js ''Unexpected end of JSON input''))\<rparr>)
     = Inl (Error (js ''GitHub API Error: 404''))"
    by (simp add: githubFetch_def ok_def g)
  have 2: "js ''GitHub API Error: 404'' \<noteq> js ''API Error: 404''"
    by (simp add: js_def)
  have 3: "githubFetch (Inr \<lparr>status = 404, json_body = Inr (JObj [(js ''message'', JStr [])])\<rparr>)
     = Inl (Error (js ''GitHub API Error: 404''))"
    by (simp add: githubFetch_def ok_def g)
  have 4: "githubFetch (Inr \<lparr>status = 500, json_body = Inr JNull\<rparr>)
     = Inl (Error (js ''Cannot read properties of null (reading 'message')''))"
    by (simp add: githubFetch_def ok_def)
  have 5: "js ''Cannot read properties of null (reading 'message')'' \<noteq> js ''API Error: 500''"
    by (simp add: js_def)
  show ?thesis
    by (intro conjI 1 2 3 4 5)
qed

lemma githubFetch_not_ok:
  assumes "\<not> ok r" and "json_body r \<noteq> Inr JNull"
  shows "githubFetch (Inr r)
     = (case message_field r of
          None \<Rightarrow> Inl (Error (generic_message (status r)))
        | Some v \<Rightarrow>
            if truthy v then (case json_toString v of Inl e \<Rightarrow> Inl e | Inr t \<Rightarrow> Inl (Error t))
            else Inl (Error (generic_message (status r))))"
proof (cases "json_body r")
  case (Inl e)
  with assms show ?thesis
    by (simp add: githubFetch_def message_field_def)
next
  case (Inr v)
  with assms show ?thesis
    by (cases v) (simp_all add: githubFetch_def message_field_def)
qed

text \<open>
  C4, amended. For a response whose status is not 2xx and whose body is not \<open>null\<close>,
  the error thrown has as its message the \<open>message\<close> field of the body, in its string
  form, when the body is an object in which that field is a non-empty string, a number
  other than zero or \<open>true\<close>; and it has the message \<open>GitHub API Error: \<close> followed by the
  status in decimal when there is no such field (the body is not JSON, is not an object,
  or lacks the key) or the field is falsy.
\<close>

theorem githubFetch_error_message:
  "\<not> ok r \<and> json_body r \<noteq> Inr JNull \<longrightarrow>
     (\<forall>m. message_field r = Some (JStr m) \<and> m \<noteq> [] \<longrightarrow> githubFetch (Inr r) = Inl (Error m))
   \<and> (\<forall>t. message_field r = Some (JNum False t) \<longrightarrow> githubFetch (Inr r) = Inl (Error t))
   \<and> (message_field r = Some (JBool True) \<longrightarrow> githubFetch (Inr r) = Inl (Error (js ''true'')))
   \<and> (message_field r = None \<or> (\<exists>v. message_field r = Some v \<and> \<not> truthy v) \<longrightarrow>
        githubFetch (Inr r) = Inl (Error (js ''GitHub API Error: '' @ toString_nat (status r))))
   \<and> (message_field r = None \<longleftrightarrow>
        (\<forall>kvs. json_body r = Inr (JObj kvs) \<longrightarrow> lookup_last (js ''message'') kvs = None))"
proof (intro impI conjI allI)
  assume a: "\<not> ok r \<and> json_body r \<noteq> Inr JNull"
  note F = githubFetch_not_ok [OF conjunct1 [OF a] conjunct2 [OF a]]
  fix m t
  show "message_field r = Some (JStr m) \<and> m \<noteq> [] \<Longrightarrow> githubFetch (Inr r) = Inl (Error m)"
    by (simp add: F)
  show "message_field r = Some (JNum False t) \<Longrightarrow> githubFetch (Inr r) = Inl (Error t)"
    by (simp add: F)
  show "message_field r = Some (JBool True) \<Longrightarrow> githubFetch (Inr r) = Inl (Error (js ''true''))"
    by (simp add: F)
  show "message_field r = None \<or> (\<exists>v. message_field r = Some v \<and> \<not> truthy v) \<Longrightarrow>
        githubFetch (Inr r) = Inl (Error (js ''GitHub API Error: '' @ toString_nat (status r)))"
    by (auto simp: F generic_message_def)
  show "message_field r = None \<longleftrightarrow>
        (\<forall>kvs. json_body r = Inr (JObj kvs) \<longrightarrow> lookup_last (js ''message'') kvs = None)"
    by (auto simp: message_field_def split: sum.splits json.splits)
qed

theorem githubFetch_error_message_witness:
  "\<not> ok \<lparr>status = 404, json_body = Inl (Error (js ''Unexpected end of JSON input''))\<rparr>
   \<and> message_field \<lparr>status = 404, json_body = Inl (Error (js ''Unexpected end of JSON input''))\<rparr> = None
   \<and> githubFetch (Inr \<lparr>status = 404, json_body = Inl (Error (js ''Unexpected end of JSON input''))\<rparr>)
       = Inl (Error (js ''GitHub API Error: 404''))
   \<and> message_field \<lparr>status = 409,
          json_body = Inr (JObj [(js ''message'', JStr (js ''sha does not match''))])\<rparr>
       = Some (JStr (js ''sha does not match''))
   \<and> githubFetch (Inr \<lparr>status = 409,
          json_body = Inr (JObj [(js ''message'', JStr (js ''sha does not match''))])\<rparr>)
       = Inl (Error (js ''sha does not match''))
   \<and> githubFetch (Inr \<lparr>status = 422,
          json_body = Inr (JObj [(js ''message'', JNum False (js ''42''))])\<rparr>)
       = Inl (Error (js ''42''))
   \<and> githubFetch (Inr \<lparr>status = 500, json_body = Inr (JObj [(js ''message'', JStr [])])\<rparr>)
       = Inl (Error (js ''GitHub API Error: 500''))"
proof -
  let ?r1 = "\<lparr>status = 404, json_body = Inl (Error (js ''Unexpected end of JSON input''))\<rparr>"
  let ?r2 = "\<lparr>status = 409, json_body = Inr (JObj [(js ''message'', JStr (js ''sha does not match''))])\<rparr>"
  let ?r3 = "\<lparr>status = 422, json_body = Inr (JObj [(js ''message'', JNum False (js ''42''))])\<rparr>"
  let ?r4 = "\<lparr>status = 500, json_body = Inr (JObj [(js ''message'', JStr [])])\<rparr>"
  have n: "\<not> ok ?r1 \<and> json_body ?r1 \<noteq> Inr JNull" "\<not> ok ?r2 \<and> json_body ?r2 \<noteq> Inr JNull"
    "\<not> ok ?r3 \<and> json_body ?r3 \<noteq> Inr JNull" "\<not> ok ?r4 \<and> json_body ?r4 \<noteq> Inr JNull"
    by (simp_all add: ok_def)
  have d1: "js ''GitHub API Error: '' @ toString_nat 404 = js ''GitHub API Error: 404''"
    and d4: "js ''GitHub API Error: '' @ toString_nat 500 = js ''GitHub API Error: 500''"
    by (simp_all add: toString_nat.simps js_def)
  have f1: "message_field ?r1 = None"
    and f2: "message_field ?r2 = Some (JStr (js ''sha does not match''))"
    and f3: "message_field ?r3 = Some (JNum False (js ''42''))"
    and f4: "message_field ?r4 = Some (JStr [])"
    by (simp_all add: message_field_def)
  have m2: "js ''sha does not match'' \<noteq> []"
    by (simp add: js_def)
  have 1: "githubFetch (Inr ?r1) = Inl (Error (js ''GitHub API Error: 404''))"
    using githubFetch_error_message [of ?r1] n(1) f1 d1 by simp
  have 2: "githubFetch (Inr ?r2) = Inl (Error (js ''sha does not match''))"
    using githubFetch_error_message [of ?r2] n(2) f2 m2 by simp
  have 3: "githubFetch (Inr ?r3) = Inl (Error (js ''42''))"
    using githubFetch_error_message [of ?r3] n(3) f3 by simp
  have 4: "githubFetch (Inr ?r4) = Inl (Error (js ''GitHub API Error: 500''))"
    using githubFetch_error_message [of ?r4] n(4) f4 d4 by simp
  show ?thesis
    using n(1) f1 f2 1 2 3 4 by simp
qed

subsection \<open>The length of the encoded content\<close>

lemma pad4: "(n + 4 - n mod 4) mod 4 = (0::nat)"
  by presburger

lemma replicate3: "replicate 3 x = [x, x, x]"
  by (simp add: numeral_3_eq_3)

text \<open>
  C10. Whatever the reader holds, the string \<open>toBase64\<close> resolves to has a length that is a
  multiple of four: it is the result with the data-URL prefix removed, followed by as
  many \<open>=\<close> as lead to the next multiple of four, none when the length is one already.
\<close>

theorem toBase64_length_multiple_of_4:
  "length (toBase64_onload result) mod 4 = 0
   \<and> toBase64_onload (Some s)
       = replace_data_prefix s
           @ replicate ((4 - length (replace_data_prefix s) mod 4) mod 4) 61
   \<and> (toBase64 f = Inr encoded \<longrightarrow> length encoded mod 4 = 0)"
proof -
  have a: "length (toBase64_onload r) mod 4 = 0" for r
    by (cases r) (auto simp: toBase64_onload_def Let_def pad4)
  have b: "toBase64_onload (Some s)
       = replace_data_prefix s
           @ replicate ((4 - length (replace_data_prefix s) mod 4) mod 4) 61"
    by (auto simp: toBase64_onload_def Let_def)
  show ?thesis using a b by (auto simp: toBase64_def split: if_splits)
qed

theorem toBase64_length_multiple_of_4_witness:
  "toBase64 example_file = Inr (js ''aGk='')
   \<and> length (js ''aGk='') mod 4 = 0
   \<and> replace_data_prefix (js ''data:,abcde'') = js ''abcde''
   \<and> toBase64_onload (Some (js ''data:,abcde'')) = js ''abcde===''"
proof -
  have e: "base64_encode [104, 105] = js ''aGk=''"
    by (simp add: base64_encode_def base64_padding_def base64_alphabet_def js_def Let_def)
  have u: "js ''data:'' @ js ''text/plain'' @ js '';base64,'' @ js ''aGk=''
             = js ''data:text/plain;base64,aGk=''"
    by (simp add: js_def)
  have s: "replace_data_prefix (js ''data:text/plain;base64,aGk='') = js ''aGk=''"
    by (simp add: replace_data_prefix_def startsWith_def js_def line_terminator_def)
  have l: "js ''aGk='' \<noteq> [] \<and> length (js ''aGk='') mod 4 = 0"
    by (simp add: js_def)
  have h: "toBase64 example_file = Inr (js ''aGk='')"
    by (simp add: toBase64_def toBase64_onload_def example_file_def readAsDataURL_def e u s l)
  have r: "replace_data_prefix (js ''data:,abcde'') = js ''abcde''"
    by (simp add: replace_data_prefix_def startsWith_def js_def line_terminator_def)
  note T = toBase64_length_multiple_of_4 [of None "js ''data:,abcde''" example_file "js ''aGk=''"]
  have p: "js ''abcde'' @ replicate ((4 - length (js ''abcde'') mod 4) mod 4) 61 = js ''abcde===''"
    by (simp add: js_def replicate3)
  from T h have 1: "length (js ''aGk='') mod 4 = 0"
    by (elim conjE) (rule mp)
  from T have 2: "toBase64_onload (Some (js ''data:,abcde'')) = js ''abcde===''"
    unfolding r p by (elim conjE)
  show ?thesis by (intro conjI h r 1 2)
qed

subsection \<open>Uploads\<close>

lemma upload_loop_log:
  "upload_loop api tok repo cur fs (st, w) = (out, st', w') \<Longrightarrow>
   alerts w' = alerts w \<and>
   (\<exists>n tl. n \<le> length fs
      \<and> calls w' = calls w @ map (\<lambda>f. (upload_request tok repo cur f, None)) (take n fs) @ tl
      \<and> (calls w', remote w')
          = (calls w @ fst (replay api (remote w) (map (upload_request tok repo cur) (take (n + length tl) fs))),
             snd (replay api (remote w) (map (upload_request tok repo cur) (take (n + length tl) fs))))
      \<and> (\<forall>f \<in> set (take (n + length tl) fs). \<exists>c. toBase64 f = Inr c)
      \<and> ((tl = [] \<and> n = length fs \<and> out = Inr ())
         \<or> (\<exists>e. tl = [] \<and> n < length fs \<and> toBase64 (fs ! n) = Inl e \<and> out = Inl e)
         \<or> (\<exists>e. tl = [(upload_request tok repo cur (fs ! n), Some e)] \<and> n < length fs \<and> out = Inl e)))"
proof (induction fs arbitrary: st w)
  case Nil
  then show ?case by auto
next
  case (Cons f fs)
  show ?case
  proof (cases "toBase64 f")
    case (Inl e)
    with Cons.prems show ?thesis
      by (intro conjI exI [of _ 0] exI [of _ "[]"]) (auto simp: Let_def)
  next
    case (Inr content)
    let ?q = "upload_request tok repo cur f"
    let ?st1 = "st\<lparr>uploadStatus := js ''Uploading '' @ file_name f @ js ''...''\<rparr>"
    have q: "createFile_request tok (upload_params repo cur f content) = ?q"
      by (simp add: upload_request_def Inr)
    obtain res r1 where c: "api_commit api (remote w) ?q = (res, r1)"
      by (cases "api_commit api (remote w) ?q")
    let ?w1 = "w\<lparr>remote := r1, calls := calls w @ [(?q, failure res)]\<rparr>"
    have d: "createFile api tok (upload_params repo cur f content) w = (res, ?w1)"
      by (simp add: createFile_def dispatch_def q c)
    show ?thesis
    proof (cases res)
      case (Inl e)
      with Cons.prems Inr d have "out = Inl e" "w' = ?w1"
        by (auto simp: Let_def)
      then show ?thesis
        using Inl Inr c
        by (intro conjI exI [of _ 0] exI [of _ "[(?q, Some e)]"]) (auto simp: failure_def)
    next
      case (Inr u)
      with Cons.prems \<open>toBase64 f = Inr content\<close> d
      have rec: "upload_loop api tok repo cur fs (?st1, ?w1) = (out, st', w')"
        by (auto simp: Let_def)
      from Cons.IH [OF rec] have a: "alerts w' = alerts w"
        by simp
      from Cons.IH [OF rec] obtain n tl where
        N: "n \<le> length fs
          \<and> calls w' = calls ?w1 @ map (\<lambda>f. (upload_request tok repo cur f, None)) (take n fs) @ tl
          \<and> (calls w', remote w')
          = (calls ?w1 @ fst (replay api (remote ?w1) (map (upload_request tok repo cur) (take (n + length tl) fs))),
             snd (replay api (remote ?w1) (map (upload_request tok repo cur) (take (n + length tl) fs))))
          \<and> (\<forall>f \<in> set (take (n + length tl) fs). \<exists>c. toBase64 f = Inr c)
          \<and> ((tl = [] \<and> n = length fs \<and> out = Inr ())
         \<or> (\<exists>e. tl = [] \<and> n < length fs \<and> toBase64 (fs ! n) = Inl e \<and> out = Inl e)
         \<or> (\<exists>e. tl = [(upload_request tok repo cur (fs ! n), Some e)] \<and> n < length fs \<and> out = Inl e))"
        by blast
      then have n: "n \<le> length fs"
        and l: "calls w' = calls ?w1 @ map (\<lambda>f. (upload_request tok repo cur f, None)) (take n fs) @ tl"
        and r: "(calls w', remote w')
          = (calls ?w1 @ fst (replay api (remote ?w1) (map (upload_request tok repo cur) (take (n + length tl) fs))),
             snd (replay api (remote ?w1) (map (upload_request tok repo cur) (take (n + length tl) fs))))"
        and b: "\<forall>f \<in> set (take (n + length tl) fs). \<exists>c. toBase64 f = Inr c"
        and o: "(tl = [] \<and> n = length fs \<and> out = Inr ())
         \<or> (\<exists>e. tl = [] \<and> n < length fs \<and> toBase64 (fs ! n) = Inl e \<and> out = Inl e)
         \<or> (\<exists>e. tl = [(upload_request tok repo cur (fs ! n), Some e)] \<and> n < length fs \<and> out = Inl e)"
        by blast+
      show ?thesis
        using a n l r b o c Inr \<open>toBase64 f = Inr content\<close>
        by (intro conjI exI [of _ "Suc n"] exI [of _ tl])
           (auto simp: failure_def split: prod.splits)
    qed
  qed
qed

lemma upload_loop_cases:
  assumes "upload_loop api tok repo cur fs (st, w) = (out, st', w')"
  obtains n tl where
    "alerts w' = alerts w"
    "n \<le> length fs"
    "calls w' = calls w @ map (\<lambda>f. (upload_request tok repo cur f, None)) (take n fs) @ tl"
    "(calls w', remote w')
       = (calls w @ fst (replay api (remote w) (map (upload_request tok repo cur) (take (n + length tl) fs))),
          snd (replay api (remote w) (map (upload_request tok repo cur) (take (n + length tl) fs))))"
    "\<forall>f \<in> set (take (n + length tl) fs). \<exists>c. toBase64 f = Inr c"
    "(tl = [] \<and> n = length fs \<and> out = Inr ())
       \<or> (\<exists>e. tl = [] \<and> n < length fs \<and> toBase64 (fs ! n) = Inl e \<and> out = Inl e)
       \<or> (\<exists>e. tl = [(upload_request tok repo cur (fs ! n), Some e)] \<and> n < length fs \<and> out = Inl e)"
  using upload_loop_log [OF assms] by blast

lemma fetchContents_log:
  "fetchContents api localeCompare tok repo path (st, w) = (st', w') \<Longrightarrow>
   alerts w' = alerts w \<and>
   (\<exists>x. calls w' = calls w @ [(getContents_request tok (login (owner repo)) (repo_name repo) path, x)])"
  by (auto simp: fetchContents_def getContents_def dispatch_def console_error_def Let_def
        split: prod.splits sum.splits contents.splits)

lemma nth_map_ok:
  "i < n \<Longrightarrow> n \<le> length fs \<Longrightarrow>
   (map (\<lambda>f. (g f, None)) (take n fs) @ zs) ! i = (g (fs ! i), None)"
  by (simp add: nth_append)


lemma upload_request_body:
  "toBase64 f = Inr content \<Longrightarrow>
   upload_request tok repo cur f = createFile_request tok (upload_params repo cur f content)
   \<and> http_method (upload_request tok repo cur f) = Some (js ''PUT'')
   \<and> http_body (upload_request tok repo cur f)
       = Some (JObj [(js ''message'', JStr (js ''Add '' @ file_name f @ js '' via GitLite'')),
                     (js ''content'', JStr content)])"
  by (simp add: upload_request_def createFile_request_def upload_params_def
        githubFetch_request_def)

text \<open>
  C6, amended. The commit dispatched for an uploaded file is a \<open>PUT\<close> whose message is
  \<open>Add \<close>, the name of the file, and \<open> via GitLite\<close>.
\<close>

theorem upload_commit_message:
  assumes run: "handleFileUpload api localeCompare tok repo files (st, w) = (st', w')"
    and fresh: "calls w = []"
    and i: "i < length files" "i < length (calls w')"
  shows "\<exists>content. toBase64 (files ! i) = Inr content
       \<and> fst (calls w' ! i)
           = createFile_request tok (upload_params repo (currentPath st) (files ! i) content)
       \<and> http_method (fst (calls w' ! i)) = Some (js ''PUT'')
       \<and> http_body (fst (calls w' ! i))
           = Some (JObj [(js ''message'',
                          JStr (js ''Add '' @ file_name (files ! i) @ js '' via GitLite'')),
                         (js ''content'', JStr content)])"
proof -
  let ?cur = "currentPath st"
  let ?ok = "\<lambda>f. (upload_request tok repo ?cur f, None :: js_error option)"
  let ?st0 = "st\<lparr>uploading := True, isMenuOpen := False\<rparr>"
  from i have ne: "files \<noteq> []" by auto
  obtain out st2 w2 where loop: "upload_loop api tok repo ?cur files (?st0, w) = (out, st2, w2)"
    by (cases "upload_loop api tok repo ?cur files (?st0, w)")
  from loop obtain n tl where
    a2: "alerts w2 = alerts w" and n: "n \<le> length files"
    and l0: "calls w2 = calls w @ map ?ok (take n files) @ tl"
    and r0: "(calls w2, remote w2)
          = (calls w @ fst (replay api (remote w) (map (upload_request tok repo ?cur) (take (n + length tl) files))),
             snd (replay api (remote w) (map (upload_request tok repo ?cur) (take (n + length tl) files))))"
    and b: "\<forall>f \<in> set (take (n + length tl) files). \<exists>c. toBase64 f = Inr c"
    and o: "(tl = [] \<and> n = length files \<and> out = Inr ())
         \<or> (\<exists>e. tl = [] \<and> n < length files \<and> toBase64 (files ! n) = Inl e \<and> out = Inl e)
         \<or> (\<exists>e. tl = [(upload_request tok repo ?cur (files ! n), Some e)] \<and> n < length files \<and> out = Inl e)"
    by (rule upload_loop_cases)
  from l0 fresh have l: "calls w2 = map ?ok (take n files) @ tl"
    by simp
  have pre: "\<exists>zs. calls w' = calls w2 @ zs \<and> (n = length files \<or> zs = [])"
  proof (cases out)
    case (Inl e)
    with run ne loop have "calls w' = calls w2"
      by (auto simp: handleFileUpload_def alert_def)
    then show ?thesis by simp
  next
    case (Inr u)
    obtain st3 w3 where f: "fetchContents api localeCompare tok repo ?cur
        (st2\<lparr>uploadStatus := js ''Upload complete!''\<rparr>, w2) = (st3, w3)"
      by (cases "fetchContents api localeCompare tok repo ?cur
        (st2\<lparr>uploadStatus := js ''Upload complete!''\<rparr>, w2)")
    from run ne loop Inr f have "w' = w3"
      by (auto simp: handleFileUpload_def)
    moreover from o Inr have "n = length files" by auto
    ultimately show ?thesis using fetchContents_log [OF f] by auto
  qed
  then obtain zs where zs: "calls w' = calls w2 @ zs" "n = length files \<or> zs = []"
    by blast
  have tl1: "length tl \<le> 1" and tln: "tl \<noteq> [] \<longrightarrow> tl = [(upload_request tok repo ?cur (files ! n), None)] \<or> (\<exists>e. tl = [(upload_request tok repo ?cur (files ! n), Some e)])"
    using o by auto
  have ilt: "i < n + length tl"
    using zs i l by auto
  then have i2: "i < length (calls w2)"
    using l n by simp
  have q: "fst (calls w2 ! i) = upload_request tok repo ?cur (files ! i)"
  proof (cases "i < n")
    case True
    then show ?thesis using l n by (simp add: nth_map_ok)
  next
    case False
    with ilt tl1 have "i = n" "tl \<noteq> []" by auto
    with tln l n show ?thesis by (auto simp: nth_append)
  qed
  have q': "fst (calls w' ! i) = upload_request tok repo ?cur (files ! i)"
    using q zs i2 by (simp add: nth_append)
  from ilt i have "files ! i \<in> set (take (n + length tl) files)"
    by (metis in_set_conv_nth length_take min_less_iff_conj nth_take)
  with b obtain content where c: "toBase64 (files ! i) = Inr content"
    by blast
  from upload_request_body [OF c, of tok repo ?cur] q' c show ?thesis
    by auto
qed

lemma toBase64_example: "toBase64 (example_file\<lparr>file_name := n\<rparr>) = Inr (js ''aGk='')"
proof -
  have e: "base64_encode [104, 105] = js ''aGk=''"
    by (simp add: base64_encode_def base64_padding_def base64_alphabet_def js_def Let_def)
  have u: "js ''data:'' @ js ''text/plain'' @ js '';base64,'' @ js ''aGk=''
             = js ''data:text/plain;base64,aGk=''"
    by (simp add: js_def)
  have s: "replace_data_prefix (js ''data:text/plain;base64,aGk='') = js ''aGk=''"
    by (simp add: replace_data_prefix_def startsWith_def js_def line_terminator_def)
  have l: "js ''aGk='' \<noteq> [] \<and> length (js ''aGk='') mod 4 = 0"
    by (simp add: js_def)
  show ?thesis
    by (simp add: toBase64_def toBase64_onload_def example_file_def readAsDataURL_def e u s l)
qed

lemma example_upload_calls:
  "calls (snd (handleFileUpload example_api codeUnitCompare (js ''t'') example_repo example_files
       (initial_explorer, example_world)))
   = [(upload_request (js ''t'') example_repo [] (example_file\<lparr>file_name := js ''a.txt''\<rparr>), None),
      (upload_request (js ''t'') example_repo [] (example_file\<lparr>file_name := js ''b.txt''\<rparr>),
       Some (Error (js ''conflict'')))]"
  by (simp add: handleFileUpload_def example_files_def toBase64_example createFile_def
        dispatch_def example_api_def example_world_def initial_explorer_def failure_def
        alert_def upload_request_def)

text \<open>
  C6, as stated, at the upload of the file \<open>hi.txt\<close>: the message of the commit is
  \<open>Add hi.txt via GitLite\<close>, not \<open>Add hi.txt\<close>.
\<close>

theorem upload_commit_message_counterexample:
  "http_body (fst (calls (snd (handleFileUpload example_api codeUnitCompare (js ''t'') example_repo
       [example_file] (initial_explorer, example_world))) ! 0))
     = Some (JObj [(js ''message'', JStr (js ''Add hi.txt via GitLite'')),
                   (js ''content'', JStr (js ''aGk=''))])
   \<and> js ''Add hi.txt via GitLite'' \<noteq> js ''Add hi.txt''"
proof -
  have t: "toBase64 example_file = Inr (js ''aGk='')"
    using toBase64_example [of "file_name example_file"] by simp
  have m: "js ''Add '' @ file_name example_file @ js '' via GitLite'' = js ''Add hi.txt via GitLite''"
    by (simp add: example_file_def js_def)
  have "http_body (fst (calls (snd (handleFileUpload example_api codeUnitCompare (js ''t'') example_repo
       [example_file] (initial_explorer, example_world))) ! 0))
     = Some (JObj [(js ''message'', JStr (js ''Add '' @ file_name example_file @ js '' via GitLite'')),
                   (js ''content'', JStr (js ''aGk=''))])"
    by (simp add: handleFileUpload_def t createFile_def dispatch_def example_api_def
          example_world_def initial_explorer_def failure_def fetchContents_def getContents_def
          createFile_request_def upload_params_def githubFetch_request_def)
  moreover have "js ''Add hi.txt via GitLite'' \<noteq> js ''Add hi.txt''"
    by (simp add: js_def)
  ultimately show ?thesis
    unfolding m by blast
qed

theorem upload_commit_message_witness:
  "calls example_world = []
   \<and> (1::nat) < length example_files
   \<and> toBase64 (example_files ! 1) = Inr (js ''aGk='')
   \<and> http_method (fst (calls (snd (handleFileUpload example_api codeUnitCompare (js ''t'')
         example_repo example_files (initial_explorer, example_world))) ! 1)) = Some (js ''PUT'')
   \<and> http_body (fst (calls (snd (handleFileUpload example_api codeUnitCompare (js ''t'')
         example_repo example_files (initial_explorer, example_world))) ! 1))
       = Some (JObj [(js ''message'', JStr (js ''Add b.txt via GitLite'')),
                     (js ''content'', JStr (js ''aGk=''))])"
proof -
  let ?run = "handleFileUpload example_api codeUnitCompare (js ''t'') example_repo
           example_files (initial_explorer, example_world)"
  have run: "?run = (fst ?run, snd ?run)"
    by simp
  have fresh: "calls example_world = []"
    by (simp add: example_world_def)
  have k: "(1::nat) < length example_files" "(1::nat) < length (calls (snd ?run))"
    by (simp add: example_files_def) (simp add: example_upload_calls)
  have t: "toBase64 (example_files ! 1) = Inr (js ''aGk='')"
    by (simp add: example_files_def toBase64_example)
  have m: "js ''Add '' @ file_name (example_files ! 1) @ js '' via GitLite'' = js ''Add b.txt via GitLite''"
    by (simp add: example_files_def js_def)
  from upload_commit_message [OF run fresh k] t m
  have "http_method (fst (calls (snd ?run) ! 1)) = Some (js ''PUT'')
    \<and> http_body (fst (calls (snd ?run) ! 1))
       = Some (JObj [(js ''message'', JStr (js ''Add b.txt via GitLite'')),
                     (js ''content'', JStr (js ''aGk=''))])"
    by auto
  then show ?thesis
    using fresh k(1) t by blast
qed

subsection \<open>Listings\<close>

lemma insert_sorted_mset: "mset (insert_sorted cmp x ys) = add_mset x (mset ys)"
  by (induction ys) auto

lemma array_sort_mset: "mset (array_sort cmp xs) = mset xs"
  by (induction xs) (auto simp: insert_sorted_mset)

lemma insert_sorted_set: "set (insert_sorted cmp x ys) = insert x (set ys)"
  by (induction ys) auto

lemma insert_sorted_sorted:
  assumes total: "\<And>a b. cmp a b \<le> 0 \<or> cmp b a \<le> 0"
    and trans: "\<And>a b c. cmp a b \<le> 0 \<Longrightarrow> cmp b c \<le> 0 \<Longrightarrow> cmp a c \<le> 0"
  shows "sorted_wrt (\<lambda>a b. cmp a b \<le> 0) ys \<Longrightarrow> sorted_wrt (\<lambda>a b. cmp a b \<le> 0) (insert_sorted cmp x ys)"
proof (induction ys)
  case Nil
  then show ?case by simp
next
  case (Cons y ys)
  show ?case
  proof (cases "cmp x y \<le> 0")
    case True
    with Cons.prems trans [of x y] show ?thesis by auto
  next
    case False
    with total [of x y] have "cmp y x \<le> 0" by simp
    with False Cons show ?thesis by (auto simp: insert_sorted_set)
  qed
qed

lemma array_sort_sorted:
  assumes total: "\<And>a b. cmp a b \<le> 0 \<or> cmp b a \<le> 0"
    and trans: "\<And>a b c. cmp a b \<le> 0 \<Longrightarrow> cmp b c \<le> 0 \<Longrightarrow> cmp a c \<le> 0"
  shows "sorted_wrt (\<lambda>a b. cmp a b \<le> 0) (array_sort cmp xs)"
  by (induction xs) (auto intro: insert_sorted_sorted [OF total trans])

lemma compareEntries_total:
  assumes "\<forall>a b. localeCompare a b \<le> 0 \<or> localeCompare b a \<le> 0"
  shows "compareEntries localeCompare a b \<le> 0 \<or> compareEntries localeCompare b a \<le> 0"
  using assms by (cases "fe_type a"; cases "fe_type b") (auto simp: compareEntries_def)

lemma compareEntries_trans:
  assumes trans: "\<forall>a b c. localeCompare a b \<le> 0 \<and> localeCompare b c \<le> 0 \<longrightarrow> localeCompare a c \<le> 0"
    and ab: "compareEntries localeCompare a b \<le> 0" and bc: "compareEntries localeCompare b c \<le> 0"
  shows "compareEntries localeCompare a c \<le> 0"
proof (cases "fe_type a = fe_type b")
  case True
  note tab = this
  show ?thesis
  proof (cases "fe_type b = fe_type c")
    case True
    from ab tab have 1: "localeCompare (fe_name a) (fe_name b) \<le> 0"
      by (simp add: compareEntries_def)
    from bc True have 2: "localeCompare (fe_name b) (fe_name c) \<le> 0"
      by (simp add: compareEntries_def)
    from trans 1 2 have "localeCompare (fe_name a) (fe_name c) \<le> 0"
      by blast
    with tab True show ?thesis
      by (simp add: compareEntries_def)
  next
    case False
    with bc have "fe_type b = Dir_type"
      by (simp add: compareEntries_def split: if_splits)
    with tab False show ?thesis
      by (simp add: compareEntries_def)
  qed
next
  case False
  with ab have a: "fe_type a = Dir_type"
    by (simp add: compareEntries_def split: if_splits)
  with False have b: "fe_type b = File_type"
    by (cases "fe_type b") simp_all
  have "fe_type c = File_type"
  proof (rule ccontr)
    assume "fe_type c \<noteq> File_type"
    then have "fe_type c = Dir_type" by (cases "fe_type c") simp_all
    with b bc show False by (simp add: compareEntries_def)
  qed
  with a show ?thesis
    by (simp add: compareEntries_def)
qed

lemma fetchContents_result:
  "fetchContents api localeCompare tok repo path (st, w) = (st', w') \<Longrightarrow>
   api_contents api (remote w) (listing_request tok repo path) = (res, r') \<Longrightarrow>
   selectedFile st' = None \<and> fileContent st' = None \<and> \<not> loading st'
   \<and> currentPath st' = currentPath st
   \<and> entries st'
       = (case res of
            Inr (Listing data) \<Rightarrow> array_sort (compareEntries localeCompare) data
          | Inr (Single data) \<Rightarrow> [data]
          | Inl err \<Rightarrow> [])
   \<and> calls w' = calls w @ [(listing_request tok repo path, failure res)]
   \<and> remote w' = r' \<and> alerts w' = alerts w"
  by (auto simp: fetchContents_def getContents_def dispatch_def console_error_def Let_def
        listing_request_def split: prod.splits sum.splits contents.splits)

lemma codeUnitCompare_total: "codeUnitCompare a b \<le> 0 \<or> codeUnitCompare b a \<le> 0"
  by (induction a b rule: codeUnitCompare.induct) auto

lemma codeUnitCompare_trans:
  "codeUnitCompare a b \<le> 0 \<Longrightarrow> codeUnitCompare b c \<le> 0 \<Longrightarrow> codeUnitCompare a c \<le> 0"
proof (induction a arbitrary: b c)
  case Nil
  then show ?case by (cases c) auto
next
  case (Cons x xs)
  from Cons.prems obtain y ys where b: "b = y # ys"
    by (cases b) auto
  with Cons.prems obtain z zs where c: "c = z # zs"
    by (cases c) (auto split: if_splits)
  from Cons.prems b c have xy: "x \<le> y" and yz: "y \<le> z"
    by (auto split: if_splits)
  show ?case
  proof (cases "x < z")
    case True
    then show ?thesis by (simp add: c)
  next
    case False
    with xy yz have e: "x = y" "y = z" by auto
    with Cons.prems b c have "codeUnitCompare xs ys \<le> 0" "codeUnitCompare ys zs \<le> 0"
      by auto
    then have "codeUnitCompare xs zs \<le> 0"
      by (rule Cons.IH)
    with e c show ?thesis by simp
  qed
qed

lemma example_sorted:
  "array_sort (compareEntries codeUnitCompare) example_listing
     = [example_entry ''c'' Dir_type, example_entry ''z'' Dir_type,
        example_entry ''a'' File_type, example_entry ''b'' File_type]"
  by (simp add: example_listing_def compareEntries_def example_entry_def js_def)

lemma example_fetch:
  "api_contents example_api r (listing_request (js ''t'') example_repo p)
     = (Inr (Listing example_listing), Suc r)"
  by (simp add: example_api_def)

lemma codeUnitCompare_flip: "codeUnitCompare b a = - codeUnitCompare a b"
  by (induction a b rule: codeUnitCompare.induct) auto

lemma collate_total: "collate a b \<le> 0 \<or> collate b a \<le> 0"
proof -
  let ?p = "codeUnitCompare (map fold_case a) (map fold_case b)"
  have f: "codeUnitCompare (map fold_case b) (map fold_case a) = - ?p"
    by (rule codeUnitCompare_flip)
  show ?thesis
  proof (cases "?p = 0")
    case True
    with f codeUnitCompare_total [of "map case_weight a" "map case_weight b"] show ?thesis
      by (simp add: collate_def)
  next
    case False
    with f show ?thesis
      by (simp add: collate_def Let_def) linarith
  qed
qed

lemma collate_primary:
  "collate a b \<le> 0 \<Longrightarrow> codeUnitCompare (map fold_case a) (map fold_case b) \<le> 0"
  by (simp add: collate_def Let_def split: if_splits)

lemma collate_trans:
  assumes ab: "collate a b \<le> 0" and bc: "collate b c \<le> 0"
  shows "collate a c \<le> 0"
proof -
  let ?P = "\<lambda>x y. codeUnitCompare (map fold_case x) (map fold_case y)"
  let ?T = "\<lambda>x y. codeUnitCompare (map case_weight x) (map case_weight y)"
  have pab: "?P a b \<le> 0" and pbc: "?P b c \<le> 0"
    using ab bc by (simp_all add: collate_primary)
  then have pac: "?P a c \<le> 0"
    by (rule codeUnitCompare_trans)
  show ?thesis
  proof (cases "?P a c = 0")
    case False
    with pac show ?thesis
      by (simp add: collate_def Let_def)
  next
    case True
    then have "?P c a = 0"
      using codeUnitCompare_flip [of "map fold_case c" "map fold_case a"] by simp
    with pbc have "?P b a \<le> 0"
      using codeUnitCompare_trans [of "map fold_case b" "map fold_case c" "map fold_case a"] by simp
    then have "?P a b \<ge> 0"
      using codeUnitCompare_flip [of "map fold_case b" "map fold_case a"] by simp
    with pab have ab0: "?P a b = 0" by simp
    from True pab have "?P c b \<le> 0"
      using codeUnitCompare_trans [of "map fold_case c" "map fold_case a" "map fold_case b"]
        \<open>?P c a = 0\<close> by simp
    then have "?P b c \<ge> 0"
      using codeUnitCompare_flip [of "map fold_case c" "map fold_case b"] by simp
    with pbc have bc0: "?P b c = 0" by simp
    from ab ab0 have "?T a b \<le> 0" by (simp add: collate_def)
    moreover from bc bc0 have "?T b c \<le> 0" by (simp add: collate_def)
    ultimately have "?T a c \<le> 0"
      by (rule codeUnitCompare_trans)
    with True show ?thesis
      by (simp add: collate_def)
  qed
qed

lemma letters_sorted:
  "array_sort (compareEntries collate) letters_listing
     = [example_entry ''Docs'' Dir_type, example_entry ''src'' Dir_type,
        example_entry ''a'' File_type, example_entry ''b'' File_type,
        example_entry ''B'' File_type, example_entry ''Z'' File_type]"
  by (simp add: letters_listing_def compareEntries_def example_entry_def js_def collate_def
        fold_case_def case_weight_def Let_def)

lemma letters_fetch:
  "api_contents letters_api r (listing_request (js ''t'') example_repo p)
     = (Inr (Listing letters_listing), Suc r)"
  by (simp add: letters_api_def)

text \<open>
  C1, as stated, at a listing with the files \<open>Z\<close>, \<open>B\<close>, \<open>b\<close> and \<open>a\<close>: with the host's
  comparison the files are shown in the order \<open>a\<close>, \<open>b\<close>, \<open>B\<close>, \<open>Z\<close>, where \<open>b\<close> stands
  before \<open>B\<close> although it is the greater of the two in lexicographic order.
\<close>

theorem fetchContents_listing_order_counterexample:
  "entries (fst (fetchContents letters_api collate (js ''t'') example_repo []
       (initial_explorer, example_world)))
     = [example_entry ''Docs'' Dir_type, example_entry ''src'' Dir_type,
        example_entry ''a'' File_type, example_entry ''b'' File_type,
        example_entry ''B'' File_type, example_entry ''Z'' File_type]
   \<and> fe_type (example_entry ''b'' File_type) = fe_type (example_entry ''B'' File_type)
   \<and> codeUnitCompare (fe_name (example_entry ''b'' File_type))
         (fe_name (example_entry ''B'' File_type)) = 1"
proof -
  let ?run = "fetchContents letters_api collate (js ''t'') example_repo []
         (initial_explorer, example_world)"
  have run: "?run = (fst ?run, snd ?run)"
    by simp
  have fetch: "api_contents letters_api (remote example_world) (listing_request (js ''t'') example_repo [])
     = (Inr (Listing letters_listing), 1)"
    by (simp add: letters_fetch example_world_def)
  have 1: "entries (fst ?run)
     = [example_entry ''Docs'' Dir_type, example_entry ''src'' Dir_type,
        example_entry ''a'' File_type, example_entry ''b'' File_type,
        example_entry ''B'' File_type, example_entry ''Z'' File_type]"
    using fetchContents_result [OF run fetch] by (simp add: letters_sorted)
  have 2: "fe_type (example_entry ''b'' File_type) = fe_type (example_entry ''B'' File_type)"
    by (simp add: example_entry_def)
  have 3: "codeUnitCompare (fe_name (example_entry ''b'' File_type))
         (fe_name (example_entry ''B'' File_type)) = 1"
    by (simp add: example_entry_def js_def)
  show ?thesis
    by (intro conjI 1 2 3)
qed

text \<open>
  C1, amended. When the fetch of a path resolves to a list, the entries shown are a
  rearrangement of that list in which every directory stands before every file and,
  within each kind, the names do not decrease in the order of \<open>localeCompare\<close>, the
  comparison of the host, whatever consistent comparison that is.
\<close>

theorem fetchContents_listing_order:
  assumes total: "\<forall>a b. localeCompare a b \<le> 0 \<or> localeCompare b a \<le> 0"
    and trans: "\<forall>a b c. localeCompare a b \<le> 0 \<and> localeCompare b c \<le> 0 \<longrightarrow> localeCompare a c \<le> 0"
    and fetch: "api_contents api (remote w) (listing_request tok repo path) = (Inr (Listing data), r')"
    and run: "fetchContents api localeCompare tok repo path (st, w) = (st', w')"
  shows "mset (entries st') = mset data
       \<and> render st' = (if data = [] then Empty else ListingView (entries st'))
       \<and> (\<forall>i j. i < j \<and> j < length (entries st') \<longrightarrow>
             (fe_type (entries st' ! j) = Dir_type \<longrightarrow> fe_type (entries st' ! i) = Dir_type)
           \<and> (fe_type (entries st' ! i) = fe_type (entries st' ! j) \<longrightarrow>
                localeCompare (fe_name (entries st' ! i)) (fe_name (entries st' ! j)) \<le> 0))"
proof -
  let ?cmp = "compareEntries localeCompare"
  from fetchContents_result [OF run fetch]
  have e: "entries st' = array_sort ?cmp data" and r: "selectedFile st' = None" "\<not> loading st'"
    by simp_all
  have m: "mset (entries st') = mset data"
    by (simp add: e array_sort_mset)
  then have "(entries st' = []) = (data = [])"
    by (metis mset_zero_iff)
  with r have v: "render st' = (if data = [] then Empty else ListingView (entries st'))"
    by (simp add: render_def)
  have s: "sorted_wrt (\<lambda>a b. ?cmp a b \<le> 0) (entries st')"
    unfolding e
    by (rule array_sort_sorted) (use compareEntries_total [OF total] compareEntries_trans [OF trans] in blast)+
  have o: "(fe_type (entries st' ! j) = Dir_type \<longrightarrow> fe_type (entries st' ! i) = Dir_type)
           \<and> (fe_type (entries st' ! i) = fe_type (entries st' ! j) \<longrightarrow>
                localeCompare (fe_name (entries st' ! i)) (fe_name (entries st' ! j)) \<le> 0)"
    if "i < j" "j < length (entries st')" for i j
  proof -
    from s that have "?cmp (entries st' ! i) (entries st' ! j) \<le> 0"
      by (simp add: sorted_wrt_iff_nth_less)
    then show ?thesis
      by (auto simp: compareEntries_def split: if_splits)
  qed
  show ?thesis
  proof (intro conjI)
    show "mset (entries st') = mset data"
      by (rule m)
    show "render st' = (if data = [] then Empty else ListingView (entries st'))"
      by (rule v)
    show "\<forall>i j. i < j \<and> j < length (entries st') \<longrightarrow>
             (fe_type (entries st' ! j) = Dir_type \<longrightarrow> fe_type (entries st' ! i) = Dir_type)
           \<and> (fe_type (entries st' ! i) = fe_type (entries st' ! j) \<longrightarrow>
                localeCompare (fe_name (entries st' ! i)) (fe_name (entries st' ! j)) \<le> 0)"
      by (intro allI impI, elim conjE, rule o)
  qed
qed

theorem fetchContents_listing_order_witness:
  "api_contents letters_api (remote example_world) (listing_request (js ''t'') example_repo [])
     = (Inr (Listing letters_listing), 1)
   \<and> entries (fst (fetchContents letters_api collate (js ''t'') example_repo []
         (initial_explorer, example_world)))
       = [example_entry ''Docs'' Dir_type, example_entry ''src'' Dir_type,
          example_entry ''a'' File_type, example_entry ''b'' File_type,
          example_entry ''B'' File_type, example_entry ''Z'' File_type]
   \<and> mset (entries (fst (fetchContents letters_api collate (js ''t'') example_repo []
         (initial_explorer, example_world)))) = mset letters_listing
   \<and> render (fst (fetchContents letters_api collate (js ''t'') example_repo []
         (initial_explorer, example_world)))
       = ListingView [example_entry ''Docs'' Dir_type, example_entry ''src'' Dir_type,
          example_entry ''a'' File_type, example_entry ''b'' File_type,
          example_entry ''B'' File_type, example_entry ''Z'' File_type]
   \<and> collate (fe_name (example_entry ''b'' File_type)) (fe_name (example_entry ''B'' File_type)) \<le> 0"
proof -
  let ?run = "fetchContents letters_api collate (js ''t'') example_repo []
         (initial_explorer, example_world)"
  have total: "\<forall>a b. collate a b \<le> 0 \<or> collate b a \<le> 0"
    by (simp add: collate_total)
  have trans: "\<forall>a b c. collate a b \<le> 0 \<and> collate b c \<le> 0 \<longrightarrow> collate a c \<le> 0"
    using collate_trans by blast
  have fetch: "api_contents letters_api (remote example_world) (listing_request (js ''t'') example_repo [])
     = (Inr (Listing letters_listing), 1)"
    by (simp add: letters_fetch example_world_def)
  have run: "?run = (fst ?run, snd ?run)"
    by simp
  note T = fetchContents_listing_order [OF total trans fetch run]
  have e: "entries (fst ?run)
       = [example_entry ''Docs'' Dir_type, example_entry ''src'' Dir_type,
          example_entry ''a'' File_type, example_entry ''b'' File_type,
          example_entry ''B'' File_type, example_entry ''Z'' File_type]"
    using fetchContents_result [OF run fetch] by (simp add: letters_sorted)
  have ne: "letters_listing \<noteq> []"
    by (simp add: letters_listing_def)
  from T have m: "mset (entries (fst ?run)) = mset letters_listing"
    by (rule conjunct1)
  from T ne have "render (fst ?run) = ListingView (entries (fst ?run))"
    by simp
  then have v: "render (fst ?run) = ListingView [example_entry ''Docs'' Dir_type, example_entry ''src'' Dir_type,
          example_entry ''a'' File_type, example_entry ''b'' File_type,
          example_entry ''B'' File_type, example_entry ''Z'' File_type]"
    by (simp only: e)
  from T have "(3::nat) < 4 \<and> 4 < length (entries (fst ?run)) \<longrightarrow>
      (fe_type (entries (fst ?run) ! 3) = fe_type (entries (fst ?run) ! 4) \<longrightarrow>
        collate (fe_name (entries (fst ?run) ! 3)) (fe_name (entries (fst ?run) ! 4)) \<le> 0)"
    by blast
  then have o: "collate (fe_name (example_entry ''b'' File_type)) (fe_name (example_entry ''B'' File_type)) \<le> 0"
    unfolding e by (simp add: example_entry_def)
  show ?thesis
    by (intro conjI fetch e m v o)
qed

subsection \<open>Deleting the viewed file\<close>

text \<open>
  C5. From a state that shows a file, a confirmed deletion that fails leaves the state
  as it was, still showing that file, and raises an alert with the message of the
  failure; one that succeeds clears the selection and fetches the listing of the current
  path again, so that the listing of that path, or the empty folder, is shown.
\<close>

theorem handleDelete_outcomes:
  assumes sel: "selectedFile st = Some sel" and nl: "\<not> loading st"
    and run: "handleDelete api localeCompare tok repo True (st, w) = (st', w')"
  shows "render st = ViewingFile sel
     \<and> (\<forall>e r'. api_commit api (remote w) (delete_request tok repo sel) = (Inl e, r') \<longrightarrow>
           st' = st \<and> render st' = ViewingFile sel
         \<and> alerts w' = alerts w @ [js ''Delete failed: '' @ message_text e]
         \<and> calls w' = calls w @ [(delete_request tok repo sel, Some e)])
     \<and> (\<forall>u r'. api_commit api (remote w) (delete_request tok repo sel) = (Inr u, r') \<longrightarrow>
           selectedFile st' = None \<and> currentPath st' = currentPath st
         \<and> (render st' = Empty \<or> render st' = ListingView (entries st'))
         \<and> (\<exists>x. calls w' = calls w @ [(delete_request tok repo sel, None),
                                        (listing_request tok repo (currentPath st), x)])
         \<and> entries st'
             = (case fst (api_contents api r' (listing_request tok repo (currentPath st))) of
                  Inr (Listing data) \<Rightarrow> array_sort (compareEntries localeCompare) data
                | Inr (Single data) \<Rightarrow> [data]
                | Inl err \<Rightarrow> [])
         \<and> alerts w' = alerts w)"
proof (intro conjI allI impI)
  show "render st = ViewingFile sel"
    using sel nl by (simp add: render_def)
next
  fix e r'
  assume c: "api_commit api (remote w) (delete_request tok repo sel) = (Inl e, r')"
  have s: "st\<lparr>loading := False\<rparr> = st"
    using nl by simp
  from run sel c s have "st' = st" and w': "w' = alert (js ''Delete failed: '' @ message_text e)
      (w\<lparr>remote := r', calls := calls w @ [(delete_request tok repo sel, Some e)]\<rparr>)"
    by (auto simp: handleDelete_def deleteFile_def dispatch_def delete_request_def failure_def)
  then show "st' = st" "render st' = ViewingFile sel"
    "alerts w' = alerts w @ [js ''Delete failed: '' @ message_text e]"
    "calls w' = calls w @ [(delete_request tok repo sel, Some e)]"
    using sel nl by (simp_all add: render_def alert_def)
next
  fix u r'
  assume c: "api_commit api (remote w) (delete_request tok repo sel) = (Inr u, r')"
  let ?w1 = "w\<lparr>remote := r', calls := calls w @ [(delete_request tok repo sel, None)]\<rparr>"
  from run sel c have f: "fetchContents api localeCompare tok repo (currentPath st)
       (st\<lparr>loading := True, selectedFile := None\<rparr>, ?w1) = (st', w')"
    by (auto simp: handleDelete_def deleteFile_def dispatch_def delete_request_def failure_def)
  obtain res r2 where g: "api_contents api (remote ?w1) (listing_request tok repo (currentPath st)) = (res, r2)"
    by (cases "api_contents api (remote ?w1) (listing_request tok repo (currentPath st))")
  note R = fetchContents_result [OF f g]
  from R show "selectedFile st' = None" "currentPath st' = currentPath st" "alerts w' = alerts w"
    by simp_all
  from R show "render st' = Empty \<or> render st' = ListingView (entries st')"
    by (simp add: render_def)
  from R show "\<exists>x. calls w' = calls w @ [(delete_request tok repo sel, None),
                                        (listing_request tok repo (currentPath st), x)]"
    by simp
  from R g show "entries st'
             = (case fst (api_contents api r' (listing_request tok repo (currentPath st))) of
                  Inr (Listing data) \<Rightarrow> array_sort (compareEntries localeCompare) data
                | Inr (Single data) \<Rightarrow> [data]
                | Inl err \<Rightarrow> [])"
    by simp
qed

lemma example_commit:
  "api_commit example_api r q = (if r = 1 then Inl (Error (js ''conflict'')) else Inr (), Suc r)"
  by (simp add: example_api_def)

theorem handleDelete_outcomes_witness:
  "selectedFile example_viewing = Some (example_entry ''a'' File_type)
   \<and> \<not> loading example_viewing
   \<and> render example_viewing = ViewingFile (example_entry ''a'' File_type)
   \<and> fst (handleDelete example_api codeUnitCompare (js ''t'') example_repo True
         (example_viewing, example_world\<lparr>remote := 1\<rparr>)) = example_viewing
   \<and> alerts (snd (handleDelete example_api codeUnitCompare (js ''t'') example_repo True
         (example_viewing, example_world\<lparr>remote := 1\<rparr>))) = [js ''Delete failed: conflict'']
   \<and> selectedFile (fst (handleDelete example_api codeUnitCompare (js ''t'') example_repo True
         (example_viewing, example_world))) = None
   \<and> entries (fst (handleDelete example_api codeUnitCompare (js ''t'') example_repo True
         (example_viewing, example_world)))
       = [example_entry ''c'' Dir_type, example_entry ''z'' Dir_type,
          example_entry ''a'' File_type, example_entry ''b'' File_type]"
proof -
  let ?sel = "example_entry ''a'' File_type"
  let ?w1 = "example_world\<lparr>remote := 1\<rparr>"
  let ?bad = "handleDelete example_api codeUnitCompare (js ''t'') example_repo True
         (example_viewing, ?w1)"
  let ?good = "handleDelete example_api codeUnitCompare (js ''t'') example_repo True
         (example_viewing, example_world)"
  have sel: "selectedFile example_viewing = Some ?sel" and nl: "\<not> loading example_viewing"
    by (simp_all add: example_viewing_def initial_explorer_def)
  have bad: "?bad = (fst ?bad, snd ?bad)" and good: "?good = (fst ?good, snd ?good)"
    by simp_all
  have cb: "api_commit example_api (remote ?w1) (delete_request (js ''t'') example_repo ?sel)
      = (Inl (Error (js ''conflict'')), 2)"
    by (simp add: example_commit)
  have cg: "api_commit example_api (remote example_world) (delete_request (js ''t'') example_repo ?sel)
      = (Inr (), 1)"
    by (simp add: example_commit example_world_def)
  note B = handleDelete_outcomes [OF sel nl bad]
  note G = handleDelete_outcomes [OF sel nl good]
  from B have 0: "render example_viewing = ViewingFile ?sel"
    by (rule conjunct1)
  from B cb have 1: "fst ?bad = example_viewing"
    by blast
  from B cb have "alerts (snd ?bad) = alerts ?w1 @ [js ''Delete failed: '' @ message_text (Error (js ''conflict''))]"
    by blast
  then have 2: "alerts (snd ?bad) = [js ''Delete failed: conflict'']"
    by (simp add: example_world_def js_def)
  from G cg have 3: "selectedFile (fst ?good) = None"
    by blast
  from G cg have "entries (fst ?good)
             = (case fst (api_contents example_api 1 (listing_request (js ''t'') example_repo (currentPath example_viewing))) of
                  Inr (Listing data) \<Rightarrow> array_sort (compareEntries codeUnitCompare) data
                | Inr (Single data) \<Rightarrow> [data]
                | Inl err \<Rightarrow> [])"
    by blast
  then have 4: "entries (fst ?good) = [example_entry ''c'' Dir_type, example_entry ''z'' Dir_type,
          example_entry ''a'' File_type, example_entry ''b'' File_type]"
    by (simp add: example_fetch example_sorted)
  show ?thesis
    by (intro conjI sel nl 0 1 2 3 4)
qed

subsection \<open>Creating a repository\<close>

text \<open>
  C7. When the \<open>createRepo\<close> call of \<open>handleCreateRepo\<close> succeeds, the list of
  repositories is the list before with the created repository put in front; the request
  carried the given name and privacy flag, and an entry with that name and flag is in the
  list when the created repository has them.
\<close>

theorem handleCreateRepo_prepends:
  assumes tok: "token (authData a) = Some tok" "tok \<noteq> []"
    and ok: "api_createRepo api (remote w) (createRepo_request tok (new_repo_params name isPrivate))
               = (Inr newRepo, r')"
  shows "handleCreateRepo api name isPrivate (a, w)
           = (Inr (), a\<lparr>repos := newRepo # repos a\<rparr>,
              w\<lparr>remote := r',
                calls := calls w @ [(createRepo_request tok (new_repo_params name isPrivate), None)]\<rparr>)
       \<and> repos (fst (snd (handleCreateRepo api name isPrivate (a, w)))) = newRepo # repos a
       \<and> http_body (createRepo_request tok (new_repo_params name isPrivate))
           = Some (JObj [(js ''name'', JStr name), (js ''private'', JBool isPrivate),
                         (js ''auto_init'', JBool True),
                         (js ''description'', JStr (js ''Created via GitLite Mobile''))])
       \<and> (repo_name newRepo = name \<and> repo_private newRepo = isPrivate \<longrightarrow>
            (\<exists>r \<in> set (repos (fst (snd (handleCreateRepo api name isPrivate (a, w))))).
               repo_name r = name \<and> repo_private r = isPrivate))"
  using assms
  by (simp add: handleCreateRepo_def createRepo_def dispatch_def new_repo_params_def failure_def
        createRepo_request_def githubFetch_request_def)

theorem handleCreateRepo_prepends_witness:
  "token (authData example_app) = Some (js ''t'')
   \<and> js ''t'' \<noteq> []
   \<and> api_createRepo example_api (remote example_world)
         (createRepo_request (js ''t'') (new_repo_params (js ''demo'') False))
       = (Inr example_repo, 1)
   \<and> repos (fst (snd (handleCreateRepo example_api (js ''demo'') False (example_app, example_world))))
       = example_repo # repos example_app
   \<and> repo_name example_repo = js ''demo''
   \<and> repo_private example_repo = False"
proof -
  have tok: "token (authData example_app) = Some (js ''t'')" "js ''t'' \<noteq> []"
    by (simp_all add: example_app_def js_def)
  have ok: "api_createRepo example_api (remote example_world)
         (createRepo_request (js ''t'') (new_repo_params (js ''demo'') False))
       = (Inr example_repo, 1)"
    by (simp add: example_api_def example_world_def)
  note T = handleCreateRepo_prepends [OF tok ok]
  from T have 1: "repos (fst (snd (handleCreateRepo example_api (js ''demo'') False (example_app, example_world))))
       = example_repo # repos example_app"
    by blast
  have 2: "repo_name example_repo = js ''demo''" "repo_private example_repo = False"
    by (simp_all add: example_repo_def)
  show ?thesis
    by (intro conjI tok ok 1 2)
qed

subsection \<open>The name of a new repository\<close>

lemma runs_head:
  "\<exists>r rs. runs P (x # xs) = (x # r) # rs \<and> (\<forall>z \<in> set r. P z = P x)"
proof (induction xs arbitrary: x)
  case Nil
  then show ?case by simp
next
  case (Cons y ys)
  from Cons [of y] obtain r rs where "runs P (y # ys) = (y # r) # rs" "\<forall>z \<in> set r. P z = P y"
    by blast
  then show ?case by auto
qed

lemma hyphenate_keep:
  assumes "\<not> white_space c"
  shows "hyphenate_runs (c # cs) = c # hyphenate_runs cs"
proof (cases cs)
  case Nil
  with assms show ?thesis by (simp add: hyphenate_runs_def)
next
  case (Cons y ys)
  from runs_head [of white_space y ys] obtain r rs
    where r: "runs white_space (y # ys) = (y # r) # rs" "\<forall>z \<in> set r. white_space z = white_space y"
    by blast
  with assms Cons show ?thesis
    by (auto simp: hyphenate_runs_def)
qed

lemma hyphenate_space:
  "white_space c \<Longrightarrow> hyphenate_runs (c # cs) = 45 # hyphenate_runs (dropWhile white_space cs)"
proof (induction cs arbitrary: c)
  case Nil
  then show ?case by (simp add: hyphenate_runs_def)
next
  case (Cons y ys)
  from runs_head [of white_space y ys] obtain r rs
    where r: "runs white_space (y # ys) = (y # r) # rs" "\<forall>z \<in> set r. white_space z = white_space y"
    by blast
  show ?case
  proof (cases "white_space y")
    case True
    from r True Cons.prems have "hyphenate_runs (c # y # ys) = hyphenate_runs (y # ys)"
      by (simp add: hyphenate_runs_def list_all_iff)
    also from True have "\<dots> = 45 # hyphenate_runs (dropWhile white_space ys)"
      by (rule Cons.IH)
    finally show ?thesis using True by simp
  next
    case False
    with r Cons.prems show ?thesis
      by (simp add: hyphenate_runs_def)
  qed
qed

lemma replace_whitespace_runs: "replace_whitespace s = hyphenate_runs s"
proof (induction s rule: replace_whitespace.induct)
  case 1
  then show ?case by (simp add: hyphenate_runs_def)
next
  case (2 c cs)
  then show ?case
    by (simp add: hyphenate_keep hyphenate_space)
qed

lemma hyphen_not_space: "\<not> white_space 45"
  by (simp add: white_space_def)

lemma replace_whitespace_clean: "x \<in> set (replace_whitespace s) \<Longrightarrow> \<not> white_space x"
proof (induction s rule: replace_whitespace.induct)
  case 1
  then show ?case by simp
next
  case (2 c cs)
  show ?case
  proof (cases "white_space c")
    case True
    with "2.prems" have "x = 45 \<or> x \<in> set (replace_whitespace (dropWhile white_space cs))"
      by simp
    with True "2.IH"(1) hyphen_not_space show ?thesis
      by blast
  next
    case False
    with "2.prems" have "x = c \<or> x \<in> set (replace_whitespace cs)"
      by simp
    with False "2.IH"(2) show ?thesis
      by blast
  qed
qed

lemma handleCreate_calls:
  assumes "handleCreate (handleCreateRepo api) (st, a, w) = (st', a', w')"
    and "\<forall>c \<in> set (newRepoName st). \<not> white_space c"
  shows "(\<forall>c \<in> set (newRepoName st'). \<not> white_space c)
       \<and> (\<exists>new. calls w' = calls w @ new
            \<and> (\<forall>q \<in> set new. \<exists>tok.
                  fst q = createRepo_request tok (new_repo_params (newRepoName st) (newRepoPrivate st))))"
  using assms
  by (auto simp: handleCreate_def handleCreateRepo_def createRepo_def dispatch_def alert_def
        console_error_def new_repo_params_def
        split: option.splits sum.splits prod.splits if_splits)

lemma repo_list_step_clean:
  assumes "repo_list_step api ev (st, a, w) = (st', a', w')"
    and "\<forall>c \<in> set (newRepoName st). \<not> white_space c"
  shows "(\<forall>c \<in> set (newRepoName st'). \<not> white_space c)
       \<and> (\<exists>new. calls w' = calls w @ new
            \<and> (\<forall>q \<in> set new. \<exists>tok n p.
                  fst q = createRepo_request tok (new_repo_params n p)
                  \<and> (\<forall>c \<in> set n. \<not> white_space c)))"
proof (cases ev)
  case SubmitCreate
  with assms(1) have "handleCreate (handleCreateRepo api) (st, a, w) = (st', a', w')"
    by simp
  from handleCreate_calls [OF this assms(2)] assms(2) show ?thesis
    by blast
next
  case (NameInput v)
  with assms(1) show ?thesis
    by (auto simp: onChange_name_def dest: replace_whitespace_clean)
qed (use assms in auto)

lemma run_events_clean:
  "run_events api evs (st, a, w) = (st', a', w') \<Longrightarrow>
   \<forall>c \<in> set (newRepoName st). \<not> white_space c \<Longrightarrow>
   (\<forall>c \<in> set (newRepoName st'). \<not> white_space c)
   \<and> (\<exists>new. calls w' = calls w @ new
        \<and> (\<forall>q \<in> set new. \<exists>tok n p.
              fst q = createRepo_request tok (new_repo_params n p)
              \<and> (\<forall>c \<in> set n. \<not> white_space c)))"
proof (induction evs arbitrary: st a w)
  case Nil
  then show ?case by simp
next
  case (Cons ev evs)
  obtain st1 a1 w1 where s: "repo_list_step api ev (st, a, w) = (st1, a1, w1)"
    by (cases "repo_list_step api ev (st, a, w)")
  from repo_list_step_clean [OF s Cons.prems(2)] obtain new1 where
    c1: "\<forall>c \<in> set (newRepoName st1). \<not> white_space c"
    and n1: "calls w1 = calls w @ new1"
    and q1: "\<forall>q \<in> set new1. \<exists>tok n p.
              fst q = createRepo_request tok (new_repo_params n p)
              \<and> (\<forall>c \<in> set n. \<not> white_space c)"
    by blast
  from Cons.prems(1) s have "run_events api evs (st1, a1, w1) = (st', a', w')"
    by simp
  from Cons.IH [OF this c1] obtain new2 where
    c2: "\<forall>c \<in> set (newRepoName st'). \<not> white_space c"
    and n2: "calls w' = calls w1 @ new2"
    and q2: "\<forall>q \<in> set new2. \<exists>tok n p.
              fst q = createRepo_request tok (new_repo_params n p)
              \<and> (\<forall>c \<in> set n. \<not> white_space c)"
    by blast
  have "calls w' = calls w @ (new1 @ new2)"
    using n1 n2 by simp
  moreover have "\<forall>q \<in> set (new1 @ new2). \<exists>tok n p.
              fst q = createRepo_request tok (new_repo_params n p)
              \<and> (\<forall>c \<in> set n. \<not> white_space c)"
    using q1 q2 by auto
  ultimately show ?case
    using c2 by blast
qed

lemma createRepo_request_name:
  "http_body (createRepo_request tok (new_repo_params n p))
     = Some (JObj [(js ''name'', JStr n), (js ''private'', JBool p), (js ''auto_init'', JBool True),
                   (js ''description'', JStr (js ''Created via GitLite Mobile''))])"
  by (simp add: createRepo_request_def new_repo_params_def githubFetch_request_def)

text \<open>
  C9. What the name field stores is the typed string with every maximal run of white
  space replaced by one hyphen, and it holds no white space; after any sequence of events
  of the component the stored name holds none, and neither does the name in the body of
  any request the component has caused.
\<close>

theorem repo_name_whitespace_replaced:
  "replace_whitespace v = hyphenate_runs v
   \<and> (\<forall>c \<in> set (replace_whitespace v). \<not> white_space c)
   \<and> newRepoName (onChange_name v st) = replace_whitespace v
   \<and> (run_events api evs (initial_repo_list, a, w) = (st', a', w') \<longrightarrow>
        (\<forall>c \<in> set (newRepoName st'). \<not> white_space c)
      \<and> (\<forall>q \<in> set (drop (length (calls w)) (calls w')). \<exists>n rest.
            http_body (fst q) = Some (JObj ((js ''name'', JStr n) # rest))
            \<and> (\<forall>c \<in> set n. \<not> white_space c)))"
proof (intro conjI impI)
  show "replace_whitespace v = hyphenate_runs v"
    by (rule replace_whitespace_runs)
  show "\<forall>c \<in> set (replace_whitespace v). \<not> white_space c"
    using replace_whitespace_clean by blast
  show "newRepoName (onChange_name v st) = replace_whitespace v"
    by (simp add: onChange_name_def)
next
  assume run: "run_events api evs (initial_repo_list, a, w) = (st', a', w')"
  have init: "\<forall>c \<in> set (newRepoName initial_repo_list). \<not> white_space c"
    by (simp add: initial_repo_list_def)
  from run_events_clean [OF run init] obtain new where
    c: "\<forall>c \<in> set (newRepoName st'). \<not> white_space c"
    and n: "calls w' = calls w @ new"
    and q: "\<forall>q \<in> set new. \<exists>tok n p.
              fst q = createRepo_request tok (new_repo_params n p)
              \<and> (\<forall>c \<in> set n. \<not> white_space c)"
    by blast
  show "\<forall>c \<in> set (newRepoName st'). \<not> white_space c"
    by (rule c)
  show "\<forall>q \<in> set (drop (length (calls w)) (calls w')). \<exists>n rest.
            http_body (fst q) = Some (JObj ((js ''name'', JStr n) # rest))
            \<and> (\<forall>c \<in> set n. \<not> white_space c)"
  proof
    fix x assume "x \<in> set (drop (length (calls w)) (calls w'))"
    with n have "x \<in> set new" by simp
    with q obtain tok m p where "fst x = createRepo_request tok (new_repo_params m p)"
      "\<forall>c \<in> set m. \<not> white_space c"
      by blast
    then show "\<exists>n rest. http_body (fst x) = Some (JObj ((js ''name'', JStr n) # rest))
            \<and> (\<forall>c \<in> set n. \<not> white_space c)"
      by (simp add: createRepo_request_name)
  qed
qed

lemma example_replace: "replace_whitespace (js ''my  new repo'') = js ''my-new-repo''"
  by (simp add: js_def white_space_def)

theorem repo_name_whitespace_replaced_witness:
  "replace_whitespace (js ''my  new repo'') = js ''my-new-repo''
   \<and> hyphenate_runs (js ''my  new repo'') = js ''my-new-repo''
   \<and> newRepoName (onChange_name (js ''my  new repo'') initial_repo_list) = js ''my-new-repo''
   \<and> map fst (calls (snd (snd (run_events example_api
         [OpenCreateModal, NameInput (js ''my  new repo''), SubmitCreate]
         (initial_repo_list, example_app, example_world)))))
       = [createRepo_request (js ''t'') (new_repo_params (js ''my-new-repo'') False)]
   \<and> newRepoName (fst (run_events example_api
         [OpenCreateModal, NameInput (js ''my  new repo''), SubmitCreate]
         (initial_repo_list, example_app, example_world))) = []
   \<and> (\<exists>n rest. http_body (createRepo_request (js ''t'') (new_repo_params (js ''my-new-repo'') False))
           = Some (JObj ((js ''name'', JStr n) # rest))
         \<and> (\<forall>c \<in> set n. \<not> white_space c))"
proof -
  let ?run = "run_events example_api
         [OpenCreateModal, NameInput (js ''my  new repo''), SubmitCreate]
         (initial_repo_list, example_app, example_world)"
  note T = repo_name_whitespace_replaced [of "js ''my  new repo''" initial_repo_list example_api
      "[OpenCreateModal, NameInput (js ''my  new repo''), SubmitCreate]" example_app example_world
      "fst ?run" "fst (snd ?run)" "snd (snd ?run)"]
  have ne: "js ''my-new-repo'' \<noteq> []"
    by (simp add: js_def)
  from T have 1: "hyphenate_runs (js ''my  new repo'') = js ''my-new-repo''"
    by (simp add: example_replace)
  from T have 2: "newRepoName (onChange_name (js ''my  new repo'') initial_repo_list) = js ''my-new-repo''"
    by (simp add: example_replace)
  have r: "?run = (initial_repo_list\<lparr>showCreateModal := False, newRepoName := [], creating := False\<rparr>,
      example_app\<lparr>repos := example_repo # repos example_app\<rparr>,
      example_world\<lparr>remote := 1,
        calls := [(createRepo_request (js ''t'') (new_repo_params (js ''my-new-repo'') False), None)]\<rparr>)"
    by (simp add: onChange_name_def example_replace handleCreate_def handleCreateRepo_def ne
          createRepo_def dispatch_def example_app_def example_api_def example_world_def
          initial_repo_list_def new_repo_params_def failure_def js_def [of "''t''"])
  have 3: "map fst (calls (snd (snd ?run)))
       = [createRepo_request (js ''t'') (new_repo_params (js ''my-new-repo'') False)]"
    unfolding r by simp
  have 4: "newRepoName (fst ?run) = []"
    unfolding r by simp
  have c: "calls example_world = []"
    by (simp add: example_world_def)
  from T have "\<forall>q \<in> set (drop (length (calls example_world)) (calls (snd (snd ?run)))). \<exists>n rest.
            http_body (fst q) = Some (JObj ((js ''name'', JStr n) # rest))
            \<and> (\<forall>c \<in> set n. \<not> white_space c)"
    by simp
  then have 5: "\<exists>n rest. http_body (createRepo_request (js ''t'') (new_repo_params (js ''my-new-repo'') False))
           = Some (JObj ((js ''name'', JStr n) # rest))
         \<and> (\<forall>c \<in> set n. \<not> white_space c)"
    unfolding r c by simp
  show ?thesis
    by (intro conjI example_replace 1 2 3 4 5)
qed

subsection \<open>Base64 there and back\<close>

lemma byte_bound: "unat (a :: byte) < 256"
  using unsigned_less [of a] by simp

lemma div_4096: "(n::nat) div 4096 = n div 64 div 64"
proof -
  have "(4096::nat) = 64 * 64" by simp
  then show ?thesis by (simp only: div_mult2_eq)
qed

lemma div_262144: "(n::nat) div 262144 = n div 64 div 64 div 64"
proof -
  have "(262144::nat) = 64 * 64 * 64" by simp
  then show ?thesis by (simp only: div_mult2_eq)
qed

lemma div_65536: "(n::nat) div 65536 = n div 256 div 256"
proof -
  have "(65536::nat) = 256 * 256" by simp
  then show ?thesis by (simp only: div_mult2_eq)
qed

lemma sextets_of_24:
  "((n div 262144 * 64 + n div 4096 mod 64) * 64 + n div 64 mod 64) * 64 + n mod 64 = (n::nat)"
  unfolding div_262144 div_4096 by (simp only: div_mult_mod_eq)

lemma sextets_of_18: "(n div 4096 * 64 + n div 64 mod 64) * 64 + n mod 64 = (n::nat)"
  unfolding div_4096 by (simp only: div_mult_mod_eq)

lemma sextets_of_12: "n div 64 * 64 + n mod 64 = (n::nat)"
  by (simp only: div_mult_mod_eq)

lemma bytes3:
  assumes "b < 256" "c < (256::nat)"
  shows "((a * 256 + b) * 256 + c) div 65536 = a"
    and "((a * 256 + b) * 256 + c) div 256 mod 256 = b"
    and "((a * 256 + b) * 256 + c) mod 256 = c"
proof -
  have d: "(x * 256 + y) div 256 = x" and m: "(x * 256 + y) mod 256 = y" if "y < 256" for x y :: nat
    using that by simp_all
  have 1: "((a * 256 + b) * 256 + c) div 256 = a * 256 + b"
    using assms(2) by (rule d)
  show "((a * 256 + b) * 256 + c) div 65536 = a"
    unfolding div_65536 1 using assms(1) by (rule d)
  show "((a * 256 + b) * 256 + c) div 256 mod 256 = b"
    unfolding 1 using assms(1) by (rule m)
  show "((a * 256 + b) * 256 + c) mod 256 = c"
    using assms(2) by (rule m)
qed

lemma bytes2:
  assumes "b < (256::nat)"
  shows "(a * 256 + b) * 4 div 4 div 256 = a" and "(a * 256 + b) * 4 div 4 mod 256 = b"
  using assms by simp_all

lemma decode_sextets_sextets: "decode_sextets (sextets bs) = bs"
proof (induction bs rule: sextets.induct)
  case 1
  show ?case by simp
next
  case (2 a)
  define n where "n = unat a * 16"
  have s: "sextets [a] = [n div 64, n mod 64]"
    by (simp only: sextets.simps Let_def n_def)
  have "decode_sextets [n div 64, n mod 64] = [of_nat ((n div 64 * 64 + n mod 64) div 16)]"
    by (simp only: decode_sextets.simps)
  also have "\<dots> = [of_nat (n div 16)]"
    by (simp only: sextets_of_12)
  also have "\<dots> = [a]"
    by (simp add: n_def)
  finally show ?case
    by (simp only: s)
next
  case (3 a b)
  define n where "n = (unat a * 256 + unat b) * 4"
  have s: "sextets [a, b] = [n div 4096, n div 64 mod 64, n mod 64]"
    by (simp only: sextets.simps Let_def n_def)
  have "decode_sextets [n div 4096, n div 64 mod 64, n mod 64]
      = [of_nat (((n div 4096 * 64 + n div 64 mod 64) * 64 + n mod 64) div 4 div 256),
         of_nat (((n div 4096 * 64 + n div 64 mod 64) * 64 + n mod 64) div 4 mod 256)]"
    by (simp only: decode_sextets.simps Let_def)
  also have "\<dots> = [of_nat (n div 4 div 256), of_nat (n div 4 mod 256)]"
    by (simp only: sextets_of_18)
  also have "\<dots> = [a, b]"
    unfolding n_def by (simp only: bytes2 [OF byte_bound] of_nat_unat ucast_id)
  finally show ?case
    by (simp only: s)
next
  case (4 a b c bs)
  define n where "n = (unat a * 256 + unat b) * 256 + unat c"
  have s: "sextets (a # b # c # bs)
      = n div 262144 # n div 4096 mod 64 # n div 64 mod 64 # n mod 64 # sextets bs"
    by (simp add: Let_def n_def)
  have "decode_sextets (n div 262144 # n div 4096 mod 64 # n div 64 mod 64 # n mod 64 # sextets bs)
      = of_nat ((((n div 262144 * 64 + n div 4096 mod 64) * 64 + n div 64 mod 64) * 64 + n mod 64) div 65536)
        # of_nat ((((n div 262144 * 64 + n div 4096 mod 64) * 64 + n div 64 mod 64) * 64 + n mod 64) div 256 mod 256)
        # of_nat ((((n div 262144 * 64 + n div 4096 mod 64) * 64 + n div 64 mod 64) * 64 + n mod 64) mod 256)
        # decode_sextets (sextets bs)"
    by (simp only: decode_sextets.simps Let_def)
  also have "\<dots> = of_nat (n div 65536) # of_nat (n div 256 mod 256) # of_nat (n mod 256) # bs"
    by (simp only: sextets_of_24 4)
  also have "\<dots> = a # b # c # bs"
    unfolding n_def by (simp only: bytes3 [OF byte_bound byte_bound] of_nat_unat ucast_id)
  finally show ?case
    by (simp only: s)
qed

lemma sextets_bound: "v \<in> set (sextets bs) \<Longrightarrow> v < 64"
proof (induction bs rule: sextets.induct)
  case 1
  then show ?case by simp
next
  case (2 a)
  have "unat a * 16 < 64 * 64" using byte_bound [of a] by simp
  then have "unat a * 16 div 64 < 64" by (rule less_mult_imp_div_less)
  with 2 show ?case by (auto simp: Let_def)
next
  case (3 a b)
  have "(unat a * 256 + unat b) * 4 < 64 * 4096"
    using byte_bound [of a] byte_bound [of b] by simp
  then have "(unat a * 256 + unat b) * 4 div 4096 < 64" by (rule less_mult_imp_div_less)
  with 3 show ?case by (auto simp: Let_def)
next
  case (4 a b c bs)
  have "(unat a * 256 + unat b) * 256 + unat c < 64 * 262144"
    using byte_bound [of a] byte_bound [of b] byte_bound [of c] by simp
  then have "((unat a * 256 + unat b) * 256 + unat c) div 262144 < 64" by (rule less_mult_imp_div_less)
  with 4 show ?case by (auto simp: Let_def)
qed

lemma sextets_shape:
  "(base64_padding (length bs) = 0 \<and> length (sextets bs) mod 4 = 0)
   \<or> (base64_padding (length bs) = 2 \<and> length (sextets bs) mod 4 = 2)
   \<or> (base64_padding (length bs) = 1 \<and> length (sextets bs) mod 4 = 3)"
proof (induction bs rule: sextets.induct)
  case (4 a b c bs)
  have "base64_padding (length (a # b # c # bs)) = base64_padding (length bs)"
    by (simp add: base64_padding_def)
  moreover have "length (sextets (a # b # c # bs)) mod 4 = length (sextets bs) mod 4"
    by (simp add: Let_def)
  ultimately show ?case using 4 by simp
qed (simp_all add: base64_padding_def Let_def)

lemma alphabet_length: "length base64_alphabet = 64"
  by (simp add: base64_alphabet_def js_def)

lemma alphabet_distinct: "distinct base64_alphabet"
  by (simp add: base64_alphabet_def js_def)

lemma alphabet_chars:
  "c \<in> set base64_alphabet \<Longrightarrow>
   c \<noteq> 61 \<and> c \<noteq> 44 \<and> c \<noteq> 10 \<and> \<not> ascii_whitespace c \<and> \<not> line_terminator c"
  by (auto simp: base64_alphabet_def js_def ascii_whitespace_def line_terminator_def)

lemma index_of_nth: "distinct xs \<Longrightarrow> i < length xs \<Longrightarrow> index_of (xs ! i) xs = Some i"
proof (induction xs arbitrary: i)
  case Nil
  then show ?case by simp
next
  case (Cons x xs)
  then show ?case by (cases i) auto
qed

lemma those_values_chars:
  "\<forall>v \<in> set vs. v < 64 \<Longrightarrow> those_values (map (\<lambda>i. base64_alphabet ! i) vs) = Some vs"
  by (induction vs) (simp_all add: index_of_nth alphabet_distinct alphabet_length)

lemma strip_padding_append:
  assumes "\<forall>c \<in> set m. c \<noteq> 61" and "k \<le> 2"
  shows "strip_padding (m @ replicate k 61) = m"
proof -
  have l: "m \<noteq> [] \<Longrightarrow> m ! (length m - 1) \<noteq> 61"
    using assms(1) by (metis One_nat_def diff_less length_greater_0_conv nth_mem zero_less_one)
  from assms(2) consider "k = 0" | "k = 1" | "k = 2" by linarith
  then show ?thesis
  proof cases
    case 1
    with l show ?thesis
      by (cases "m = []") (auto simp: strip_padding_def Let_def)
  next
    case 2
    with l show ?thesis
      by (cases "m = []") (auto simp: strip_padding_def Let_def nth_append)
  next
    case 3
    then have "replicate k (61 :: code_unit) = [61, 61]"
      by (simp add: numeral_2_eq_2)
    then show ?thesis
      by (simp add: strip_padding_def Let_def nth_append)
  qed
qed

lemma ucast_byte: "(ucast (ucast (b :: byte) :: code_unit) :: byte) = b"
  by (rule ucast_up_ucast_id) (simp add: is_up)

lemma after_last_comma_none: "\<forall>c \<in> set p. c \<noteq> 44 \<Longrightarrow> after_last_comma p = None"
  by (induction p) auto

lemma after_last_comma_append:
  "\<forall>c \<in> set p. c \<noteq> 44 \<Longrightarrow> after_last_comma (pre @ 44 # p) = Some p"
  by (induction pre) (auto simp: after_last_comma_none)

lemma replace_data_prefix_dataURL:
  assumes "\<forall>c \<in> set ty. \<not> line_terminator c"
    and "\<forall>c \<in> set p. c \<noteq> 44 \<and> \<not> line_terminator c"
  shows "replace_data_prefix (js ''data:'' @ ty @ js '';base64,'' @ p) = p"
proof -
  let ?rest = "ty @ js '';base64,'' @ p"
  have st: "startsWith (js ''data:'' @ ?rest) (js ''data:'')" and dr: "drop 5 (js ''data:'' @ ?rest) = ?rest"
    by (simp_all add: startsWith_def js_def)
  have sp: "js '';base64,'' = js '';base64'' @ [44]"
    by (simp add: js_def)
  have b: "\<forall>c \<in> set (js '';base64,''). \<not> line_terminator c"
    by (simp add: js_def line_terminator_def)
  with assms have "\<forall>c \<in> set ?rest. \<not> line_terminator c"
    by auto
  then have tw: "takeWhile (\<lambda>c. \<not> line_terminator c) ?rest = ?rest"
    and dw: "dropWhile (\<lambda>c. \<not> line_terminator c) ?rest = []"
    by simp_all
  have "?rest = (ty @ js '';base64'') @ 44 # p"
    by (simp add: sp)
  moreover from assms(2) have "after_last_comma ((ty @ js '';base64'') @ 44 # p) = Some p"
    by (intro after_last_comma_append) simp
  ultimately have al: "after_last_comma ?rest = Some p"
    by simp
  show ?thesis
    unfolding replace_data_prefix_def
    by (simp only: st dr tw dw al Let_def if_True option.case append_Nil2)
qed

lemma sextet_chars:
  "c \<in> set (map (\<lambda>i. base64_alphabet ! i) (sextets bs)) \<Longrightarrow> c \<in> set base64_alphabet"
  using sextets_bound [of _ bs] by (auto simp: alphabet_length)

lemma pad_char:
  "(61 :: code_unit) \<noteq> 44 \<and> (61 :: code_unit) \<noteq> 10 \<and> \<not> ascii_whitespace 61 \<and> \<not> line_terminator 61"
  by (simp add: ascii_whitespace_def line_terminator_def)

lemma encode_chars:
  assumes "c \<in> set (base64_encode bs)"
  shows "c \<noteq> 44 \<and> c \<noteq> 10 \<and> \<not> ascii_whitespace c \<and> \<not> line_terminator c"
proof -
  from assms have "c \<in> set (map (\<lambda>i. base64_alphabet ! i) (sextets bs)) \<or> c = 61"
    by (auto simp: base64_encode_def)
  then show ?thesis
    using alphabet_chars [OF sextet_chars, of c bs] pad_char by auto
qed

lemma encode_length: "length (base64_encode bs) mod 4 = 0"
  using sextets_shape [of bs] by (auto simp: base64_encode_def) presburger+

lemma encode_nonempty: "bs \<noteq> [] \<Longrightarrow> base64_encode bs \<noteq> []"
  by (cases bs rule: sextets.cases) (simp_all add: base64_encode_def Let_def)

lemma atob_encode: "atob (base64_encode bs) = Inr (map ucast bs)"
proof -
  let ?m = "map (\<lambda>i. base64_alphabet ! i) (sextets bs)"
  let ?e = "base64_encode bs"
  have f: "filter (\<lambda>c. \<not> ascii_whitespace c) ?e = ?e"
    using encode_chars [of _ bs] by (simp add: filter_id_conv)
  have k: "base64_padding (length bs) \<le> 2"
    using sextets_shape [of bs] by auto
  have "\<forall>c \<in> set ?m. c \<noteq> 61"
    using alphabet_chars [OF sextet_chars] by blast
  then have s: "strip_padding ?e = ?m"
    unfolding base64_encode_def using k by (rule strip_padding_append)
  have l: "length (sextets bs) mod 4 \<noteq> Suc 0"
    using sextets_shape [of bs] by auto
  have v: "those_values ?m = Some (sextets bs)"
    using sextets_bound [of _ bs] by (intro those_values_chars) blast
  show ?thesis
    unfolding atob_def
    by (simp add: f encode_length s l v decode_sextets_sextets Let_def)
qed

lemma content_bytes_encode: "content_bytes (base64_encode bs) = Inr bs"
proof -
  have "filter (\<lambda>c. c \<noteq> 10) (base64_encode bs) = base64_encode bs"
    using encode_chars [of _ bs] by (simp add: filter_id_conv)
  moreover have "map ucast (map ucast bs :: jsstring) = bs"
    by (simp add: ucast_byte comp_def)
  ultimately show ?thesis
    by (simp add: content_bytes_def atob_encode)
qed

lemma toBase64_encode:
  assumes "readable f" and "\<forall>c \<in> set (file_type f). \<not> line_terminator c"
  shows "toBase64 f = Inr (base64_encode (file_bytes f))"
proof -
  have "replace_data_prefix (readAsDataURL f) = base64_encode (file_bytes f)"
    unfolding readAsDataURL_def
    using assms(2) encode_chars [of _ "file_bytes f"]
    by (intro replace_data_prefix_dataURL) blast+
  then have "toBase64_onload (Some (readAsDataURL f)) = base64_encode (file_bytes f)"
    by (simp add: toBase64_onload_def encode_length)
  with assms(1) show ?thesis
    by (simp add: toBase64_def)
qed

text \<open>
  C8. For every readable file, \<open>toBase64\<close> resolves to a string from which the decode
  path of the client (line feeds removed, \<open>atob\<close>, the character codes stored as bytes)
  computes the bytes of the file again, and the text it decodes is what the decoder makes
  of those bytes.
\<close>

theorem base64_round_trip:
  assumes "readable f" and "\<forall>c \<in> set (file_type f). \<not> line_terminator c"
  shows "\<exists>encoded. toBase64 f = Inr encoded
       \<and> content_bytes encoded = Inr (file_bytes f)
       \<and> decoded_text decode encoded = Inr (decode (file_bytes f))"
proof -
  let ?e = "base64_encode (file_bytes f)"
  have "toBase64 f = Inr ?e"
    using assms by (rule toBase64_encode)
  moreover have "content_bytes ?e = Inr (file_bytes f)"
    by (rule content_bytes_encode)
  moreover have "decoded_text decode ?e = Inr (decode (file_bytes f))"
    by (simp add: decoded_text_def content_bytes_encode)
  ultimately show ?thesis by blast
qed

theorem base64_round_trip_witness:
  "readable example_file
   \<and> list_all (\<lambda>c. \<not> line_terminator c) (file_type example_file)
   \<and> file_bytes example_file = [104, 105]
   \<and> toBase64 example_file = Inr (js ''aGk='')
   \<and> content_bytes (js ''aGk='') = Inr [104, 105]
   \<and> decoded_text ascii_text (js ''aGk='') = Inr (js ''hi'')
   \<and> toBase64 (example_file\<lparr>file_bytes := []\<rparr>) = Inr []
   \<and> content_bytes [] = Inr []"
proof -
  let ?empty = "example_file\<lparr>file_bytes := []\<rparr>"
  have r: "readable example_file" "readable ?empty" and b: "file_bytes example_file = [104, 105]"
    by (simp_all add: example_file_def)
  have t: "list_all (\<lambda>c. \<not> line_terminator c) (file_type example_file)"
    by (simp add: example_file_def js_def line_terminator_def)
  then have t': "\<forall>c \<in> set (file_type example_file). \<not> line_terminator c"
    "\<forall>c \<in> set (file_type ?empty). \<not> line_terminator c"
    by (simp_all add: list_all_iff)
  have e: "toBase64 example_file = Inr (js ''aGk='')"
    using toBase64_example [of "file_name example_file"] by simp
  from base64_round_trip [OF r(1) t'(1), of ascii_text] e
  have c: "content_bytes (js ''aGk='') = Inr (file_bytes example_file)"
    and s: "decoded_text ascii_text (js ''aGk='') = Inr (ascii_text (file_bytes example_file))"
    by auto
  have a: "ascii_text [104, 105] = js ''hi''"
    by (simp add: ascii_text_def js_def)
  have u: "js ''data:'' @ js ''text/plain'' @ js '';base64,'' = js ''data:text/plain;base64,''"
    by (simp add: js_def)
  have p: "replace_data_prefix (js ''data:text/plain;base64,'') = []"
    by (simp add: replace_data_prefix_def startsWith_def js_def line_terminator_def)
  have n: "base64_encode [] = []"
    by (simp add: base64_encode_def base64_padding_def)
  have e0: "toBase64 ?empty = Inr []"
    by (simp add: toBase64_def toBase64_onload_def example_file_def readAsDataURL_def n u p)
  from base64_round_trip [OF r(2) t'(2), of ascii_text] e0
  have c0: "content_bytes [] = Inr []"
    by auto
  show ?thesis
    using r(1) t b e c s a e0 c0 by simp
qed

end
